theory Spec2Isabelle
  imports Complex_Main "HOL-Library.Log_Nat" "HOL-Library.AList"
begin

section \<open>Python values used by the converters\<close>

text \<open>
  Every exception the modelled code can raise is a value; a function that can raise
  returns \<open>error + 'a\<close> with \<open>Inl\<close> for the exception. Exception messages are not
  modelled, only the exception class.
\<close>

datatype error = ValueError | KeyError | IndexError | ZeroDivisionError | OverflowError
  | TypeError | AttributeError | FileNotFoundError | JSONDecodeError | OSError | ImportError
  | Exception

subsection \<open>Strings: \<open>str.split\<close> and \<open>int(str)\<close>\<close>

text \<open>
  A Python \<open>str\<close> is modelled as a \<open>string\<close> whose characters are the code points
  below 256. \<open>py_split c s\<close> is \<open>s.split(c)\<close> for a one-character separator: it
  always returns at least one part.
\<close>

fun py_split :: "char \<Rightarrow> string \<Rightarrow> string list" where
  "py_split c [] = [[]]"
| "py_split c (x # xs) =
     (if x = c then [] # py_split c xs
      else (case py_split c xs of [] \<Rightarrow> [[x]] | p # ps \<Rightarrow> (x # p) # ps))"

text \<open>
  \<open>int(s)\<close> in base 10: surrounding whitespace is skipped, one sign is allowed, then
  at least one decimal digit, with single underscores allowed between digits. Anything
  else raises \<open>ValueError\<close>. Among the code points below 256 the characters that
  \<open>int\<close> skips are 9 to 13, 32, 133 and 160 (the separators 28 to 31, which
  \<open>str.strip\<close> removes, are not among them), and the only decimal digits are \<open>0\<close> to
  \<open>9\<close>. A literal of more than \<open>max_str_digits\<close> digits, leading zeros counted and
  underscores not, raises \<open>ValueError\<close> too: 4300 is the interpreter's default limit,
  which the program does not change.
\<close>

definition es_espacio :: "char \<Rightarrow> bool" where
  "es_espacio c = ((of_char c :: nat) \<in> {9, 10, 11, 12, 13, 32, 133, 160})"

definition max_str_digits :: nat where
  "max_str_digits = 4300"

definition es_digito :: "char \<Rightarrow> bool" where
  "es_digito c = (48 \<le> (of_char c :: nat) \<and> (of_char c :: nat) \<le> 57)"

definition valor_digito :: "char \<Rightarrow> int" where
  "valor_digito c = int (of_char c) - 48"

definition int_strip :: "string \<Rightarrow> string" where
  "int_strip s = rev (dropWhile es_espacio (rev (dropWhile es_espacio s)))"

fun parse_digitos :: "int \<Rightarrow> string \<Rightarrow> int option" where
  "parse_digitos acc [] = Some acc"
| "parse_digitos acc [c] =
     (if es_digito c then Some (acc * 10 + valor_digito c) else None)"
| "parse_digitos acc (c # d # ds) =
     (if es_digito c then parse_digitos (acc * 10 + valor_digito c) (d # ds)
      else if c = CHR ''_'' \<and> es_digito d then parse_digitos (acc * 10 + valor_digito d) ds
      else None)"

definition parse_sin_signo :: "string \<Rightarrow> int option" where
  "parse_sin_signo u =
     (case u of [] \<Rightarrow> None
      | c # cs \<Rightarrow> if es_digito c then parse_digitos (valor_digito c) cs else None)"

definition py_int :: "string \<Rightarrow> error + int" where
  "py_int s =
     (let t = int_strip s;
          r = (case t of [] \<Rightarrow> None
               | c # cs \<Rightarrow>
                   if c = CHR ''-'' then map_option uminus (parse_sin_signo cs)
                   else if c = CHR ''+'' then parse_sin_signo cs
                   else parse_sin_signo t)
      in case r of
           None \<Rightarrow> Inl ValueError
         | Some n \<Rightarrow>
             if length (filter es_digito t) \<le> max_str_digits then Inr n else Inl ValueError)"

text \<open>
  \<open>a, b = map(int, parts)\<close>: unpacking into two names raises \<open>ValueError\<close> unless
  there are exactly two parts, and \<open>int\<close> raises \<open>ValueError\<close> on a part that is not
  an integer literal. The map is lazy, so with three or more parts the third \<open>int\<close>
  call may also raise before the length check does; every outcome is a \<open>ValueError\<close>.
\<close>

definition unpack_dos_enteros :: "string list \<Rightarrow> error + (int \<times> int)" where
  "unpack_dos_enteros ps =
     (case ps of
        [a, b] \<Rightarrow>
          (case py_int a of Inl e \<Rightarrow> Inl e
           | Inr x \<Rightarrow> (case py_int b of Inl e \<Rightarrow> Inl e | Inr y \<Rightarrow> Inr (x, y)))
      | [] \<Rightarrow> Inl ValueError
      | [a] \<Rightarrow> (case py_int a of Inl e \<Rightarrow> Inl e | Inr x \<Rightarrow> Inl ValueError)
      | a # b # c # cs \<Rightarrow>
          (case py_int a of Inl e \<Rightarrow> Inl e
           | Inr x \<Rightarrow> (case py_int b of Inl e \<Rightarrow> Inl e
               | Inr y \<Rightarrow> (case py_int c of Inl e \<Rightarrow> Inl e | Inr z \<Rightarrow> Inl ValueError))))"

section \<open>The raw-to-scaled converter (core/converter.py)\<close>

subsection \<open>Age bands\<close>

text \<open>
  The 22 bands of \<open>_convertir_edad_a_grupo\<close>, in the order of the source: each entry
  is (years, months) of the lower end, (years, months) of the upper end, and the band
  identifier.
\<close>

definition grupos :: "((int \<times> int) \<times> (int \<times> int) \<times> string) list" where
  "grupos =
    [((6, 0), (6, 5), ''6_0_6_5''), ((6, 6), (6, 11), ''6_6_6_11''),
     ((7, 0), (7, 5), ''7_0_7_5''), ((7, 6), (7, 11), ''7_6_7_11''),
     ((8, 0), (8, 5), ''8_0_8_5''), ((8, 6), (8, 11), ''8_6_8_11''),
     ((9, 0), (9, 5), ''9_0_9_5''), ((9, 6), (9, 11), ''9_6_9_11''),
     ((10, 0), (10, 5), ''10_0_10_5''), ((10, 6), (10, 11), ''10_6_10_11''),
     ((11, 0), (11, 5), ''11_0_11_5''), ((11, 6), (11, 11), ''11_6_11_11''),
     ((12, 0), (12, 5), ''12_0_12_5''), ((12, 6), (12, 11), ''12_6_12_11''),
     ((13, 0), (13, 5), ''13_0_13_5''), ((13, 6), (13, 11), ''13_6_13_11''),
     ((14, 0), (14, 5), ''14_0_14_5''), ((14, 6), (14, 11), ''14_6_14_11''),
     ((15, 0), (15, 5), ''15_0_15_5''), ((15, 6), (15, 11), ''15_6_15_11''),
     ((16, 0), (16, 5), ''16_0_16_5''), ((16, 6), (16, 11), ''16_6_16_11'')]"

text \<open>The test of the loop body: the age in months lies between the band's ends.\<close>

definition en_grupo :: "int \<Rightarrow> int \<Rightarrow> ((int \<times> int) \<times> (int \<times> int) \<times> string) \<Rightarrow> bool" where
  "en_grupo anios meses g =
     (case g of ((anios_min, meses_min), (anios_max, meses_max), grupo_id) \<Rightarrow>
        let edad_en_meses = anios * 12 + meses;
            min_en_meses = anios_min * 12 + meses_min;
            max_en_meses = anios_max * 12 + meses_max
        in min_en_meses \<le> edad_en_meses \<and> edad_en_meses \<le> max_en_meses)"

text \<open>The loop over the bands: the first band that contains the age, else \<open>ValueError\<close>.\<close>

definition buscar_grupo :: "int \<Rightarrow> int \<Rightarrow> error + string" where
  "buscar_grupo anios meses =
     (case find (en_grupo anios meses) grupos of
        Some (_, _, grupo_id) \<Rightarrow> Inr grupo_id
      | None \<Rightarrow> Inl ValueError)"

text \<open>
  \<open>_convertir_edad_a_grupo\<close>: the whole body is inside \<open>try\<close>, and the handler turns
  every exception into a \<open>ValueError\<close>.
\<close>

definition convertir_edad_a_grupo :: "string \<Rightarrow> error + string" where
  "convertir_edad_a_grupo edad_formato =
     (case (case unpack_dos_enteros (py_split CHR '':'' edad_formato) of
              Inl e \<Rightarrow> Inl e
            | Inr (anios, meses) \<Rightarrow> buscar_grupo anios meses) of
        Inl e \<Rightarrow> Inl ValueError
      | Inr grupo_id \<Rightarrow> Inr grupo_id)"

subsection \<open>Range membership\<close>

text \<open>
  \<open>_esta_en_rango(puntaje, rango_str)\<close>. The cell comes from \<open>fila.get(subprueba)\<close>,
  so it is \<open>None\<close> when the row has no entry for the subtest. Each \<open>try\<close> catches
  \<open>ValueError\<close> only: any other exception raised inside would escape.
\<close>

definition esta_en_rango :: "int \<Rightarrow> string option \<Rightarrow> error + bool" where
  "esta_en_rango puntaje rango =
     (case rango of
        None \<Rightarrow> Inr False
      | Some rango_str \<Rightarrow>
          if rango_str = [] \<or> rango_str = ''-'' then Inr False
          else if CHR ''-'' \<in> set rango_str then
            (case unpack_dos_enteros (py_split CHR ''-'' rango_str) of
               Inr (min_val, max_val) \<Rightarrow> Inr (min_val \<le> puntaje \<and> puntaje \<le> max_val)
             | Inl ValueError \<Rightarrow> Inr False
             | Inl e \<Rightarrow> Inl e)
          else
            (case py_int rango_str of
               Inr n \<Rightarrow> Inr (puntaje = n)
             | Inl ValueError \<Rightarrow> Inr False
             | Inl e \<Rightarrow> Inl e))"

subsection \<open>The conversion\<close>

text \<open>
  The loaded JSON: \<open>data['subpruebas']\<close> is a dictionary of which only the keys are
  used, \<open>data['grupos_etarios'][g]['tabla']\<close> is the list of rows of band \<open>g\<close>. A row
  has a \<open>puntaje_escala\<close> and one cell per subtest code.
\<close>

record fila_escala =
  puntaje_escala :: int
  celdas :: "(string \<times> string) list"

record wisc_data =
  subpruebas :: "string list"
  grupos_etarios :: "(string \<times> fila_escala list) list"

text \<open>The scan of the rows: the first row whose cell contains the raw score.\<close>

fun buscar_en_tabla :: "string \<Rightarrow> int \<Rightarrow> fila_escala list \<Rightarrow> error + int" where
  "buscar_en_tabla subprueba puntaje_bruto [] = Inl ValueError"
| "buscar_en_tabla subprueba puntaje_bruto (fila # resto) =
     (case esta_en_rango puntaje_bruto (map_of (celdas fila) subprueba) of
        Inl e \<Rightarrow> Inl e
      | Inr True \<Rightarrow> Inr (puntaje_escala fila)
      | Inr False \<Rightarrow> buscar_en_tabla subprueba puntaje_bruto resto)"

definition convertir_puntaje :: "wisc_data \<Rightarrow> string \<Rightarrow> string \<Rightarrow> int \<Rightarrow> error + int" where
  "convertir_puntaje data edad_formato subprueba puntaje_bruto =
     (case convertir_edad_a_grupo edad_formato of
        Inl e \<Rightarrow> Inl e
      | Inr grupo_id \<Rightarrow>
          (case (if subprueba \<notin> set (subpruebas data)
                 then (if subprueba = ''INF'' then Inr ''IN'' else Inl ValueError)
                 else Inr subprueba) of
             Inl e \<Rightarrow> Inl e
           | Inr subprueba' \<Rightarrow>
               (case map_of (grupos_etarios data) grupo_id of
                  None \<Rightarrow> Inl KeyError
                | Some tabla \<Rightarrow> buscar_en_tabla subprueba' puntaje_bruto tabla)))"


section \<open>The patient database (main.py, DatabaseManager)\<close>

text \<open>
  The two tables of \<open>init_database\<close>. The database is the state; every operation takes
  it and returns the new one.
\<close>

record paciente =
  pac_id :: string
  pac_nombre :: string
  pac_dni :: "string option"
  pac_fecha_nacimiento :: string
  pac_notas :: "string option"
  pac_fecha_registro :: string

record evaluacion =
  ev_id :: string
  ev_paciente_id :: string
  ev_fecha_evaluacion :: string
  ev_datos_evaluacion :: string

record database =
  pacientes :: "paciente list"
  evaluaciones :: "evaluacion list"

text \<open>
  The two statements of \<open>eliminar_paciente\<close>, with the bound parameter. Every connection
  runs \<open>PRAGMA foreign_keys = ON\<close> and \<open>evaluaciones.paciente_id\<close> is declared
  \<open>ON DELETE CASCADE\<close>, so deleting patient rows also deletes the evaluations that
  refer to them.
\<close>

datatype consulta = DELETE_FROM_evaluaciones string | DELETE_FROM_pacientes string

fun sqlite_execute :: "consulta \<Rightarrow> database \<Rightarrow> database" where
  "sqlite_execute (DELETE_FROM_evaluaciones p) db =
     db\<lparr>evaluaciones := filter (\<lambda>e. ev_paciente_id e \<noteq> p) (evaluaciones db)\<rparr>"
| "sqlite_execute (DELETE_FROM_pacientes p) db =
     (let borrados = filter (\<lambda>x. pac_id x = p) (pacientes db)
      in db\<lparr>pacientes := filter (\<lambda>x. pac_id x \<noteq> p) (pacientes db),
            evaluaciones := filter (\<lambda>e. ev_paciente_id e \<notin> set (map pac_id borrados))
                              (evaluaciones db)\<rparr>)"

text \<open>
  \<open>ejecutar_consulta(query, params)\<close> without \<open>fetch\<close>: \<open>True\<close> after the statement was
  executed and committed, \<open>False\<close> when sqlite raised (a locked or unreadable file, for
  instance); then nothing was committed. Whether sqlite raises is an input, \<open>falla\<close>.
\<close>

definition ejecutar_consulta :: "bool \<Rightarrow> consulta \<Rightarrow> database \<Rightarrow> bool \<times> database" where
  "ejecutar_consulta falla query db =
     (if falla then (False, db) else (True, sqlite_execute query db))"

definition eliminar_paciente :: "bool \<Rightarrow> bool \<Rightarrow> database \<Rightarrow> string \<Rightarrow> bool \<times> database" where
  "eliminar_paciente falla_eval falla_pac db paciente_id =
     (let (exito_eval, db1) =
            ejecutar_consulta falla_eval (DELETE_FROM_evaluaciones paciente_id) db;
          (exito_pac, db2) =
            ejecutar_consulta falla_pac (DELETE_FROM_pacientes paciente_id) db1
      in if exito_eval \<and> exito_pac then (True, db2) else (False, db2))"

section \<open>The table loaders\<close>

text \<open>
  What \<open>json.load\<close> returns. An object lists its keys once, in the order of the file.
\<close>

datatype json = JNull | JBool bool | JNum int | JStr string | JArr "json list"
  | JObj "(string \<times> json) list"

text \<open>\<open>datos[clave]\<close> on a loaded value: only an object can be indexed by a string.\<close>

definition subscript :: "json \<Rightarrow> string \<Rightarrow> error + json" where
  "subscript datos clave =
     (case datos of
        JObj kvs \<Rightarrow> (case map_of kvs clave of None \<Rightarrow> Inl KeyError | Some v \<Rightarrow> Inr v)
      | _ \<Rightarrow> Inl TypeError)"

subsection \<open>\<open>str.replace\<close> and \<open>str.endswith\<close>\<close>

text \<open>
  \<open>s.replace(old, new)\<close> for a non-empty \<open>old\<close>, which is how the loader calls it:
  occurrences are replaced from the left and do not overlap.
\<close>

function py_replace :: "string \<Rightarrow> string \<Rightarrow> string \<Rightarrow> string" where
  "py_replace old new [] = []"
| "py_replace old new (c # cs) =
     (if old \<noteq> [] \<and> take (length old) (c # cs) = old
      then new @ py_replace old new (drop (length old) (c # cs))
      else c # py_replace old new cs)"
  by pat_completeness auto
termination
  by (relation "measure (\<lambda>(old, new, s). length s)") auto

definition py_endswith :: "string \<Rightarrow> string \<Rightarrow> bool" where
  "py_endswith s sufijo =
     (length sufijo \<le> length s \<and> drop (length s - length sufijo) s = sufijo)"

subsection \<open>data/tablas_wiscv.py\<close>

definition obtener_tablas_por_defecto :: "(string \<times> json) list" where
  "obtener_tablas_por_defecto =
     [(''8:6-8:11'', JObj
        [(''CC'', JObj
           [(''1'', JStr ''0-3''), (''2'', JStr ''4''), (''3'', JStr ''5''), (''4'', JStr ''6-7''),
            (''5'', JStr ''8-9''), (''6'', JStr ''10-11''), (''7'', JStr ''12-14''),
            (''8'', JStr ''15-16''), (''9'', JStr ''17-19''), (''10'', JStr ''20-21''),
            (''11'', JStr ''22-24''), (''12'', JStr ''25-27''), (''13'', JStr ''28-30''),
            (''14'', JStr ''31-32''), (''15'', JStr ''33-35''), (''16'', JStr ''36-37''),
            (''17'', JStr ''38-39''), (''18'', JStr ''40-41''), (''19'', JStr ''42-58'')]),
         (''BAL'', JObj
           [(''1'', JStr ''0-3''), (''2'', JStr ''4-5''), (''3'', JStr ''6-7''), (''4'', JStr ''8-9''),
            (''5'', JStr ''10''), (''6'', JStr ''11''), (''7'', JStr ''12''), (''8'', JStr ''13''),
            (''9'', JStr ''14''), (''10'', JStr ''15-16''), (''11'', JStr ''17''),
            (''12'', JStr ''19''), (''13'', JStr ''20-20''), (''14'', JStr ''21-22''),
            (''15'', JStr ''23''), (''16'', JStr ''24-25''), (''17'', JStr ''26''),
            (''18'', JStr ''27''), (''19'', JStr ''28-34'')])])]"

text \<open>\<open>clave_orden\<close>: the bare \<open>except\<close> turns every failure into the key 0.\<close>

definition clave_orden :: "string \<Rightarrow> int" where
  "clave_orden grupo =
     (case py_split CHR '':'' grupo of
        [] \<Rightarrow> 0
      | parte_edad # _ \<Rightarrow> (case py_int parte_edad of Inl e \<Rightarrow> 0 | Inr n \<Rightarrow> n))"

text \<open>
  One round of the loading loop. The directory entry comes with the outcome of opening
  and parsing it: \<open>None\<close> when \<open>open\<close> or \<open>json.load\<close> raised, which the loop's handler
  catches. The dictionary \<open>tablas\<close> is an association list in insertion order.
\<close>

definition cargar_archivo ::
  "string \<times> json option \<Rightarrow> (string \<times> json) list \<times> nat \<Rightarrow> (string \<times> json) list \<times> nat" where
  "cargar_archivo entrada estado =
     (case (entrada, estado) of
        ((archivo, contenido), (tablas, archivos_cargados)) \<Rightarrow>
          (case contenido of
             None \<Rightarrow> (tablas, archivos_cargados)
           | Some j \<Rightarrow>
               (AList.update (py_replace ''_'' '':'' (py_replace ''.json'' [] archivo)) j tablas,
                archivos_cargados + 1)))"

text \<open>
  \<open>cargar_tablas_completas\<close>. The argument is \<open>None\<close> when \<open>os.path.exists\<close> finds no
  directory \<open>tablas\<close>. Otherwise it is the outcome of \<open>os.listdir\<close>, which is called
  outside any \<open>try\<close>: \<open>Inl\<close> the exception it raised (the path is not a directory or
  may not be read, an \<open>OSError\<close>), which then leaves the function, or \<open>Inr\<close> the
  listing, each name with the outcome of loading it. Python's sort is stable, as
  \<open>sort_key\<close> is. What the function prints is left out.
\<close>

definition cargar_tablas_completas ::
  "(error + (string \<times> json option) list) option \<Rightarrow> error + (string \<times> json) list" where
  "cargar_tablas_completas carpeta_tablas =
     (case carpeta_tablas of
        None \<Rightarrow> Inr obtener_tablas_por_defecto
      | Some (Inl e) \<Rightarrow> Inl e
      | Some (Inr listado) \<Rightarrow>
          (let archivos_json =
                 filter (\<lambda>(archivo, _). py_endswith archivo ''.json'' \<and> archivo \<noteq> ''INFO.json'')
                   listado;
               ordenados =
                 sort_key (\<lambda>(archivo, _). clave_orden (py_replace ''_'' '':'' archivo))
                   archivos_json;
               (tablas, archivos_cargados) = fold cargar_archivo ordenados ([], 0)
           in if archivos_cargados > 0 then Inr tablas
              else Inr obtener_tablas_por_defecto))"

subsection \<open>core/converter.py: \<open>_cargar_datos\<close> and the import in main.py\<close>

text \<open>
  \<open>_cargar_datos\<close>. The argument is the outcome of opening and parsing
  \<open>wisc_v_data.json\<close>. Each of the three handlers raises a plain \<open>Exception\<close>.
\<close>

definition cargar_datos :: "error + json \<Rightarrow> error + json" where
  "cargar_datos lectura =
     (case (case lectura of
              Inl e \<Rightarrow> Inl e
            | Inr datos \<Rightarrow> subscript datos ''WISC_V_tablas_conversion'') of
        Inl FileNotFoundError \<Rightarrow> Inl Exception
      | Inl JSONDecodeError \<Rightarrow> Inl Exception
      | Inl e \<Rightarrow> Inl Exception
      | Inr tablas \<Rightarrow> Inr tablas)"

text \<open>
  The module creates \<open>conversor = WISCConverter()\<close> when it is imported, and main.py
  imports it inside \<open>try\<close> with a handler for \<open>ImportError\<close> only, which sets
  \<open>conversor = None\<close>. \<open>Inl\<close> is an exception that leaves the module.
\<close>

definition importar_conversor :: "error + json \<Rightarrow> error + json option" where
  "importar_conversor lectura =
     (case cargar_datos lectura of
        Inl ImportError \<Rightarrow> Inr None
      | Inl e \<Rightarrow> Inl e
      | Inr data \<Rightarrow> Inr (Some data))"

subsection \<open>main.py: the loaders of the composite and CIT tables\<close>

text \<open>
  \<open>cargar_tablas_compuestos\<close>. The argument is \<open>None\<close> when none of the three candidate
  paths exists, and otherwise the outcome of opening and parsing the first one that
  does. The \<open>print\<close> after loading evaluates \<open>datos['tablas_conversion'].keys()\<close>. The
  handler catches every exception and returns an empty structure.
\<close>

definition cargar_tablas_compuestos :: "(error + json) option \<Rightarrow> json" where
  "cargar_tablas_compuestos ruta_encontrada =
     (case (case ruta_encontrada of
              None \<Rightarrow> Inl FileNotFoundError
            | Some (Inl e) \<Rightarrow> Inl e
            | Some (Inr datos) \<Rightarrow>
                (case subscript datos ''tablas_conversion'' of
                   Inl e \<Rightarrow> Inl e
                 | Inr (JObj kvs) \<Rightarrow> Inr datos
                 | Inr _ \<Rightarrow> Inl AttributeError)) of
        Inl e \<Rightarrow> JObj [(''tablas_conversion'', JObj [])]
      | Inr datos \<Rightarrow> datos)"

text \<open>\<open>cargar_tabla_cit\<close>: the same shape; the \<open>print\<close> evaluates \<open>datos['tabla']\<close>.\<close>

definition cargar_tabla_cit :: "(error + json) option \<Rightarrow> json" where
  "cargar_tabla_cit ruta_encontrada =
     (case (case ruta_encontrada of
              None \<Rightarrow> Inl FileNotFoundError
            | Some (Inl e) \<Rightarrow> Inl e
            | Some (Inr datos) \<Rightarrow>
                (case subscript datos ''tabla'' of Inl e \<Rightarrow> Inl e | Inr _ \<Rightarrow> Inr datos)) of
        Inl e \<Rightarrow> JObj [(''datos'', JArr [])]
      | Inr datos \<Rightarrow> datos)"

section \<open>Python floats\<close>

text \<open>
  Python's \<open>float\<close> is the IEEE 754 binary64 format. A finite float is modelled by the
  rational number it denotes (the sign of zero plays no role in the code modelled here),
  and every arithmetic operation returns the exact result rounded to the nearest float,
  ties to the even significand.

  \<open>round_half_even\<close> rounds a rational to the nearest integer, ties to the even one.
  It is also what Python's \<open>round(x)\<close> returns for a float \<open>x\<close>.
\<close>

definition round_half_even :: "rat \<Rightarrow> int" where
  "round_half_even x =
     (let n = \<lfloor>x\<rfloor>; r = x - of_int n
      in if r < 1 / 2 then n else if 1 / 2 < r then n + 1 else if even n then n else n + 1)"

text \<open>
  The exponent \<open>e\<close> of the binade of \<open>x\<close>, with \<open>2 powi e \<le> \<bar>x\<bar> < 2 powi (e + 1)\<close>,
  and no smaller than \<open>- 1022\<close>, the exponent of the subnormal numbers.
\<close>

definition float_exponent :: "rat \<Rightarrow> int" where
  "float_exponent x =
     (if 1 \<le> \<bar>x\<bar> then bitlen \<lfloor>\<bar>x\<bar>\<rfloor> - 1
      else max (- 1022) (- bitlen (\<lceil>1 / \<bar>x\<bar>\<rceil> - 1)))"

text \<open>The nearest multiple of the spacing of the floats in the binade of \<open>x\<close>: 53 bits.\<close>

definition float_round :: "rat \<Rightarrow> rat" where
  "float_round x =
     (let q = 2 powi (float_exponent x - 52)
      in of_int (round_half_even (x / q)) * q)"

text \<open>
  A result that rounds to \<open>2 ^ 1024\<close> or beyond, that is, into a binade of exponent 1024
  or more, is not a finite float. The conversion of
  an \<open>int\<close> and the division of two \<open>int\<close>s raise \<open>OverflowError\<close> then. A product or a
  sum of floats gives an infinity instead; in the code modelled here every such value
  flows, through further sums with finite floats, into \<open>round\<close>, which raises
  \<open>OverflowError\<close> on an infinity, and no infinity meets a zero or an opposite infinity.
  So the model raises \<open>OverflowError\<close> where the infinity appears.
\<close>

definition float_of :: "rat \<Rightarrow> error + rat" where
  "float_of x =
     (let r = float_round x in if float_exponent r < 1024 then Inr r else Inl OverflowError)"

fun bind :: "error + 'a \<Rightarrow> ('a \<Rightarrow> error + 'b) \<Rightarrow> error + 'b" where
  "bind (Inl e) f = Inl e"
| "bind (Inr x) f = f x"

definition py_float :: "int \<Rightarrow> error + rat" where
  "py_float n = float_of (of_int n)"

definition py_truediv :: "int \<Rightarrow> int \<Rightarrow> error + rat" where
  "py_truediv a b = (if b = 0 then Inl ZeroDivisionError else float_of (of_int a / of_int b))"

definition float_mul :: "rat \<Rightarrow> rat \<Rightarrow> error + rat" where
  "float_mul x y = float_of (x * y)"

definition float_add :: "rat \<Rightarrow> rat \<Rightarrow> error + rat" where
  "float_add x y = float_of (x + y)"

text \<open>\<open>x * n\<close> and \<open>n + x\<close> for a float \<open>x\<close> and an \<open>int\<close> \<open>n\<close>: the \<open>int\<close> is converted first.\<close>

definition py_mul_float_int :: "rat \<Rightarrow> int \<Rightarrow> error + rat" where
  "py_mul_float_int x n = bind (py_float n) (\<lambda>y. float_mul x y)"

definition py_add_int_float :: "int \<Rightarrow> rat \<Rightarrow> error + rat" where
  "py_add_int_float n x = bind (py_float n) (\<lambda>y. float_add y x)"

definition py_round :: "rat \<Rightarrow> int" where
  "py_round x = round_half_even x"

text \<open>The float that the literal \<open>0.7\<close> denotes.\<close>

definition float_0_7 :: rat where
  "float_0_7 = 3152519739159347 / 4503599627370496"

subsection \<open>Lists and strings\<close>

text \<open>\<open>xs[i]\<close>: a negative index counts from the end, an index out of range raises.\<close>

definition py_index :: "'a list \<Rightarrow> int \<Rightarrow> error + 'a" where
  "py_index xs i =
     (if 0 \<le> i \<and> i < int (length xs) then Inr (xs ! nat i)
      else if i < 0 \<and> 0 \<le> int (length xs) + i then Inr (xs ! nat (int (length xs) + i))
      else Inl IndexError)"

text \<open>\<open>min(xs)\<close> and \<open>max(xs)\<close> raise \<open>ValueError\<close> on an empty list.\<close>

fun py_min :: "int list \<Rightarrow> error + int" where
  "py_min [] = Inl ValueError"
| "py_min (x # xs) = Inr (fold min xs x)"

fun py_max :: "int list \<Rightarrow> error + int" where
  "py_max [] = Inl ValueError"
| "py_max (x # xs) = Inr (fold max xs x)"

text \<open>\<open>sub in s\<close> for two strings.\<close>

fun py_in_str :: "string \<Rightarrow> string \<Rightarrow> bool" where
  "py_in_str sub [] = (sub = [])"
| "py_in_str sub (c # cs) = (take (length sub) (c # cs) = sub \<or> py_in_str sub cs)"

section \<open>The composite converter (main.py, ConversorCompuestos)\<close>

text \<open>
  The rows of the composite tables and of the CIT table, and the dictionaries the
  converters return. The fields are the keys of the JSON objects; \<open>suma\<close>, \<open>valor\<close> and
  \<open>cit\<close> are integers, the percentile and the confidence intervals are text.
\<close>

record bandas =
  percentil :: string
  conf_90 :: string
  conf_95 :: string

record fila_base = bandas +
  suma :: int

record fila_compuesto = fila_base +
  valor :: int

record fila_cit = fila_base +
  cit :: int

record resultado_cit = bandas +
  compuesto :: int

record resultado_compuesto = resultado_cit +
  nombre_escala :: string

record tabla_escala =
  nombre :: string
  datos :: "fila_compuesto list"

text \<open>
  The loop of the interpolation branch, over the adjacent pairs of rows in order. It
  returns at the first pair whose sums enclose \<open>suma_escalar\<close>; \<open>None\<close> is the loop
  running to its end.
\<close>

fun interpolar_compuesto ::
  "fila_compuesto list \<Rightarrow> string \<Rightarrow> int \<Rightarrow> error + resultado_compuesto option" where
  "interpolar_compuesto (fila_inf # fila_sup # resto) nombre_tabla suma_escalar =
     (if suma fila_inf \<le> suma_escalar \<and> suma_escalar \<le> suma fila_sup then
        bind (py_truediv (suma_escalar - suma fila_inf) (suma fila_sup - suma fila_inf))
          (\<lambda>ratio.
        bind (py_mul_float_int ratio (valor fila_sup - valor fila_inf)) (\<lambda>p.
        bind (py_add_int_float (valor fila_inf) p) (\<lambda>valor_interpolado.
        Inr (Some \<lparr>percentil = percentil fila_inf, conf_90 = conf_90 fila_inf,
                   conf_95 = conf_95 fila_inf, compuesto = py_round valor_interpolado,
                   nombre_escala = nombre_tabla\<rparr>))))
      else interpolar_compuesto (fila_sup # resto) nombre_tabla suma_escalar)"
| "interpolar_compuesto [] nombre_tabla suma_escalar = Inr None"
| "interpolar_compuesto [fila] nombre_tabla suma_escalar = Inr None"

text \<open>The body of \<open>convertir_compuesto\<close> once the table of the index has been found.\<close>

definition convertir_en_tabla :: "tabla_escala \<Rightarrow> int \<Rightarrow> error + resultado_compuesto" where
  "convertir_en_tabla tabla_escala suma_escalar =
     (case find (\<lambda>fila. suma fila = suma_escalar) (datos tabla_escala) of
        Some fila \<Rightarrow>
          Inr \<lparr>percentil = percentil fila, conf_90 = conf_90 fila, conf_95 = conf_95 fila,
               compuesto = valor fila, nombre_escala = nombre tabla_escala\<rparr>
      | None \<Rightarrow>
          bind (py_min (map suma (datos tabla_escala))) (\<lambda>minimo.
          if suma_escalar < minimo then
            bind (py_index (datos tabla_escala) 0) (\<lambda>fila_min.
            bind (py_index (datos tabla_escala) 1) (\<lambda>fila_sig.
            bind (py_truediv (valor fila_sig - valor fila_min) (suma fila_sig - suma fila_min))
              (\<lambda>pendiente.
            bind (py_mul_float_int pendiente (suma_escalar - suma fila_min)) (\<lambda>p.
            bind (py_add_int_float (valor fila_min) p) (\<lambda>valor_extrapolado.
            Inr \<lparr>percentil = percentil fila_min, conf_90 = conf_90 fila_min,
                 conf_95 = conf_95 fila_min,
                 compuesto = max 40 (min 160 (py_round valor_extrapolado)),
                 nombre_escala = nombre tabla_escala\<rparr>)))))
          else
            bind (py_max (map suma (datos tabla_escala))) (\<lambda>maximo.
            if suma_escalar > maximo then
              bind (py_index (datos tabla_escala) (- 1)) (\<lambda>fila_max.
              bind (py_index (datos tabla_escala) (- 2)) (\<lambda>fila_ant.
              bind (py_truediv (valor fila_max - valor fila_ant) (suma fila_max - suma fila_ant))
                (\<lambda>pendiente.
              bind (float_mul pendiente float_0_7) (\<lambda>pendiente_conservadora.
              bind (py_mul_float_int pendiente_conservadora (suma_escalar - suma fila_max))
                (\<lambda>p.
              bind (py_add_int_float (valor fila_max) p) (\<lambda>valor_extrapolado.
              Inr \<lparr>percentil =
                     (if py_in_str ''99.9'' (percentil fila_max) then ''>99.9''
                      else percentil fila_max),
                   conf_90 = conf_90 fila_max, conf_95 = conf_95 fila_max,
                   compuesto = max (valor fila_max) (min 160 (py_round valor_extrapolado)),
                   nombre_escala = nombre tabla_escala\<rparr>))))))
            else
              bind (interpolar_compuesto (datos tabla_escala) (nombre tabla_escala)
                      suma_escalar) (\<lambda>r.
              case r of
                Some resultado \<Rightarrow> Inr resultado
              | None \<Rightarrow>
                  bind (py_index (datos tabla_escala) (- 1)) (\<lambda>ultima.
                  Inr \<lparr>percentil = percentil ultima, conf_90 = conf_90 ultima,
                       conf_95 = conf_95 ultima, compuesto = valor ultima,
                       nombre_escala = nombre tabla_escala\<rparr>)))))"

text \<open>
  \<open>convertir_compuesto\<close>. The first argument is the dictionary
  \<open>tablas_compuestos['tablas_conversion']\<close>, in the order of the file.
\<close>

definition convertir_compuesto ::
  "(string \<times> tabla_escala) list \<Rightarrow> string \<Rightarrow> int \<Rightarrow> error + resultado_compuesto" where
  "convertir_compuesto tablas_conversion escala_abrev suma_escalar =
     (if tablas_conversion = [] then Inl ValueError
      else case map_of tablas_conversion escala_abrev of
             None \<Rightarrow> Inl ValueError
           | Some tabla_escala \<Rightarrow> convertir_en_tabla tabla_escala suma_escalar)"

section \<open>The CIT converter (main.py, ConversorCIT and the form)\<close>

fun interpolar_cit :: "fila_cit list \<Rightarrow> int \<Rightarrow> error + resultado_cit option" where
  "interpolar_cit (fila_inf # fila_sup # resto) suma_escalar =
     (if suma fila_inf \<le> suma_escalar \<and> suma_escalar \<le> suma fila_sup then
        bind (py_truediv (suma_escalar - suma fila_inf) (suma fila_sup - suma fila_inf))
          (\<lambda>ratio.
        bind (py_mul_float_int ratio (cit fila_sup - cit fila_inf)) (\<lambda>p.
        bind (py_add_int_float (cit fila_inf) p) (\<lambda>valor_interpolado.
        Inr (Some \<lparr>percentil = percentil fila_inf, conf_90 = conf_90 fila_inf,
                   conf_95 = conf_95 fila_inf, compuesto = py_round valor_interpolado\<rparr>))))
      else interpolar_cit (fila_sup # resto) suma_escalar)"
| "interpolar_cit [] suma_escalar = Inr None"
| "interpolar_cit [fila] suma_escalar = Inr None"

definition resultado_de_fila :: "fila_cit \<Rightarrow> resultado_cit" where
  "resultado_de_fila fila =
     \<lparr>percentil = percentil fila, conf_90 = conf_90 fila, conf_95 = conf_95 fila,
      compuesto = cit fila\<rparr>"

text \<open>
  \<open>convertir_cit\<close>. The argument is the list \<open>tabla_cit['datos']\<close>. The final \<open>return\<close>
  reads the variable \<open>fila\<close>: the first row below the smallest sum, the last row above
  the largest, and otherwise what the first loop left in it, the last row.
\<close>

definition convertir_cit :: "fila_cit list \<Rightarrow> int \<Rightarrow> error + resultado_cit" where
  "convertir_cit datos_cit suma_escalar =
     (if datos_cit = [] then Inl ValueError
      else case find (\<lambda>fila. suma fila = suma_escalar) datos_cit of
        Some fila \<Rightarrow> Inr (resultado_de_fila fila)
      | None \<Rightarrow>
          bind (py_min (map suma datos_cit)) (\<lambda>minimo.
          if suma_escalar < minimo then
            bind (py_index datos_cit 0) (\<lambda>fila. Inr (resultado_de_fila fila))
          else
            bind (py_max (map suma datos_cit)) (\<lambda>maximo.
            if suma_escalar > maximo then
              bind (py_index datos_cit (- 1)) (\<lambda>fila. Inr (resultado_de_fila fila))
            else
              bind (interpolar_cit datos_cit suma_escalar) (\<lambda>r.
              case r of
                Some resultado \<Rightarrow> Inr resultado
              | None \<Rightarrow>
                  bind (py_index datos_cit (- 1)) (\<lambda>fila. Inr (resultado_de_fila fila))))))"

text \<open>
  \<open>calcular_escala_total_cit\<close>: what the row of the total scale shows afterwards. It is
  either cleared or shows the sum, the composite, the percentile and the confidence
  interval of the selected level. The handler around the conversion catches every
  exception and clears the row.
\<close>

definition subpruebas_principales :: "string list" where
  "subpruebas_principales = [''CC'', ''AN'', ''MR'', ''RD'', ''CLA'', ''VOC'', ''BAL'']"

datatype fila_resultados = Limpia | Calculada int int string string

definition calcular_escala_total_cit ::
  "fila_cit list \<Rightarrow> string \<Rightarrow> (string \<Rightarrow> int option) \<Rightarrow> fila_resultados" where
  "calcular_escala_total_cit datos_cit nivel puntajes_escalares =
     (let puntajes_disponibles = List.map_filter puntajes_escalares subpruebas_principales
      in if length puntajes_disponibles = 7 then
           (case convertir_cit datos_cit (sum_list puntajes_disponibles) of
              Inr resultado \<Rightarrow>
                Calculada (sum_list puntajes_disponibles) (compuesto resultado)
                  (percentil resultado @ ''%'')
                  (if nivel = ''90%'' then conf_90 resultado else conf_95 resultado)
            | Inl e \<Rightarrow> Limpia)
         else Limpia)"

section \<open>The formulas of the specification\<close>

text \<open>
  The three formulas that the specification gives for a sum that is no row's sum, written
  with the operations of Python's float arithmetic, to be compared with what the
  converters compute. The arguments are the sum and the value of each of the two rows
  involved, and the sum to convert.

  Linear interpolation between two rows by the position ratio, rounded.
\<close>

definition interpolacion_lineal :: "int \<Rightarrow> int \<Rightarrow> int \<Rightarrow> int \<Rightarrow> int \<Rightarrow> error + int" where
  "interpolacion_lineal s_inf v_inf s_sup v_sup s =
     bind (py_truediv (s - s_inf) (s_sup - s_inf)) (\<lambda>ratio.
     bind (py_mul_float_int ratio (v_sup - v_inf)) (\<lambda>p.
     bind (py_add_int_float v_inf p) (\<lambda>x.
     Inr (py_round x))))"

text \<open>
  Linear extrapolation below the first row with the slope between the first two rows,
  rounded and clamped to the interval from 40 to 160.
\<close>

definition extrapolacion_inferior :: "int \<Rightarrow> int \<Rightarrow> int \<Rightarrow> int \<Rightarrow> int \<Rightarrow> error + int" where
  "extrapolacion_inferior s_min v_min s_sig v_sig s =
     bind (py_truediv (v_sig - v_min) (s_sig - s_min)) (\<lambda>pendiente.
     bind (py_mul_float_int pendiente (s - s_min)) (\<lambda>p.
     bind (py_add_int_float v_min p) (\<lambda>x.
     Inr (max 40 (min 160 (py_round x))))))"

text \<open>
  Linear extrapolation above the last row with 70% of the slope between the last two
  rows, rounded, capped at 160 and then floored at the last row's value.
\<close>

definition extrapolacion_superior :: "int \<Rightarrow> int \<Rightarrow> int \<Rightarrow> int \<Rightarrow> int \<Rightarrow> error + int" where
  "extrapolacion_superior s_ant v_ant s_max v_max s =
     bind (py_truediv (v_max - v_ant) (s_max - s_ant)) (\<lambda>pendiente.
     bind (float_mul pendiente float_0_7) (\<lambda>pendiente_conservadora.
     bind (py_mul_float_int pendiente_conservadora (s - s_max)) (\<lambda>p.
     bind (py_add_int_float v_max p) (\<lambda>x.
     Inr (max v_max (min 160 (py_round x)))))))"

text \<open>
  Integers of magnitude up to \<open>2 ^ 52\<close>: they and the differences of two of them are
  floats, so that converting them is exact and the arithmetic cannot overflow.
\<close>

definition acotado :: "int \<Rightarrow> bool" where
  "acotado n = (\<bar>n\<bar> \<le> 2 ^ 52)"

definition tabla_acotada :: "fila_compuesto list \<Rightarrow> bool" where
  "tabla_acotada filas = (\<forall>fila \<in> set filas. acotado (suma fila) \<and> acotado (valor fila))"

definition tabla_cit_acotada :: "fila_cit list \<Rightarrow> bool" where
  "tabla_cit_acotada filas = (\<forall>fila \<in> set filas. acotado (suma fila) \<and> acotado (cit fila))"

subsection \<open>The values of the formulas when nothing overflows\<close>

text \<open>
  What each formula hands to \<open>round\<close> when every operation stays within the finite
  floats.
\<close>

definition interp_val :: "int \<Rightarrow> int \<Rightarrow> int \<Rightarrow> int \<Rightarrow> int \<Rightarrow> rat" where
  "interp_val s_inf v_inf s_sup v_sup s =
     float_round (of_int v_inf +
       float_round (float_round (of_int (s - s_inf) / of_int (s_sup - s_inf))
                    * of_int (v_sup - v_inf)))"

definition extra_inf_val :: "int \<Rightarrow> int \<Rightarrow> int \<Rightarrow> int \<Rightarrow> int \<Rightarrow> rat" where
  "extra_inf_val s_min v_min s_sig v_sig s =
     float_round (of_int v_min +
       float_round (float_round (of_int (v_sig - v_min) / of_int (s_sig - s_min))
                    * of_int (s - s_min)))"

definition extra_sup_val :: "int \<Rightarrow> int \<Rightarrow> int \<Rightarrow> int \<Rightarrow> int \<Rightarrow> rat" where
  "extra_sup_val s_ant v_ant s_max v_max s =
     float_round (of_int v_max +
       float_round (float_round (float_round (of_int (v_max - v_ant) / of_int (s_max - s_ant))
                                 * float_0_7)
                    * of_int (s - s_max)))"

text \<open>
  The tables of claim C4: rows sorted strictly ascending by sum, with composite values
  that do not decrease.
\<close>

definition tabla_creciente :: "fila_compuesto list \<Rightarrow> bool" where
  "tabla_creciente filas = (sorted_wrt (<) (map suma filas) \<and> sorted (map valor filas))"

section \<open>Verified properties\<close>

subsection \<open>Rounding to the nearest float\<close>

lemma rhe_of_int: "round_half_even (of_int n) = n"
  by (simp add: round_half_even_def)

lemma rhe_bounds: "\<lfloor>x\<rfloor> \<le> round_half_even x" "round_half_even x \<le> \<lfloor>x\<rfloor> + 1"
  by (simp_all add: round_half_even_def Let_def)

lemma rhe_mono:
  assumes "x \<le> y"
  shows "round_half_even x \<le> round_half_even y"
proof (cases "\<lfloor>x\<rfloor> = \<lfloor>y\<rfloor>")
  case True
  then show ?thesis
    using assms by (auto simp: round_half_even_def Let_def)
next
  case False
  then have "\<lfloor>x\<rfloor> + 1 \<le> \<lfloor>y\<rfloor>"
    using floor_mono[OF assms] by linarith
  then show ?thesis
    using rhe_bounds(2)[of x] rhe_bounds(1)[of y] by linarith
qed

lemma rhe_le: "x \<le> of_int n \<Longrightarrow> round_half_even x \<le> n"
  using rhe_mono[of x "of_int n"] by (simp add: rhe_of_int)

lemma rhe_ge: "of_int n \<le> x \<Longrightarrow> n \<le> round_half_even x"
  using rhe_mono[of "of_int n" x] by (simp add: rhe_of_int)

lemma exponent_ge1:
  assumes "1 \<le> \<bar>x\<bar>"
  shows "2 powi (float_exponent x) \<le> \<bar>x\<bar>" "\<bar>x\<bar> < 2 powi (float_exponent x + 1)"
    "0 \<le> float_exponent x"
proof -
  let ?n = "\<lfloor>\<bar>x\<bar>\<rfloor>"
  have n: "0 < ?n" using assms by linarith
  have e: "float_exponent x = bitlen ?n - 1"
    using assms by (simp add: float_exponent_def)
  have b1: "1 \<le> bitlen ?n"
    using n bitlen_eq_zero_iff[of ?n] bitlen_nonneg[of ?n] by linarith
  then show "0 \<le> float_exponent x" by (simp add: e)
  from bitlen_bounds[OF n] have lo: "2 ^ nat (bitlen ?n - 1) \<le> ?n" and hi: "?n < 2 ^ nat (bitlen ?n)"
    by auto
  have "(2::rat) powi (float_exponent x) = 2 ^ nat (bitlen ?n - 1)"
    using b1 by (simp add: e power_int_def)
  also have "\<dots> = of_int (2 ^ nat (bitlen ?n - 1))" by simp
  also have "\<dots> \<le> of_int ?n" using lo by (simp only: of_int_le_iff)
  also have "\<dots> \<le> \<bar>x\<bar>" by simp
  finally show "2 powi (float_exponent x) \<le> \<bar>x\<bar>" .
  have "?n + 1 \<le> 2 ^ nat (bitlen ?n)" using hi by simp
  then have "(of_int (?n + 1) :: rat) \<le> of_int (2 ^ nat (bitlen ?n))"
    by (simp only: of_int_le_iff)
  moreover have "\<bar>x\<bar> < of_int (?n + 1)" by linarith
  moreover have "(2::rat) powi (float_exponent x + 1) = 2 ^ nat (bitlen ?n)"
    using b1 by (simp add: e power_int_def)
  ultimately show "\<bar>x\<bar> < 2 powi (float_exponent x + 1)" by simp
qed


lemma exponent_lt1:
  assumes "0 < \<bar>x\<bar>" and "\<bar>x\<bar> < 1"
  shows "\<bar>x\<bar> < 2 powi (float_exponent x + 1)"
    and "2 powi (float_exponent x) \<le> \<bar>x\<bar> \<or> float_exponent x = - 1022"
    and "- 1022 \<le> float_exponent x" and "float_exponent x < 0"
proof -
  let ?y = "1 / \<bar>x\<bar>"
  let ?m = "\<lceil>?y\<rceil> - 1"
  let ?b = "bitlen ?m"
  have y1: "1 < ?y" using assms by simp
  then have m: "0 < ?m" by linarith
  have b1: "1 \<le> ?b"
    using m bitlen_eq_zero_iff[of ?m] bitlen_nonneg[of ?m] by linarith
  have e: "float_exponent x = max (- 1022) (- ?b)"
    using assms by (simp add: float_exponent_def)
  show "- 1022 \<le> float_exponent x" by (simp add: e)
  show "float_exponent x < 0" using b1 by (simp add: e)
  from bitlen_bounds[OF m] have lo: "2 ^ nat (?b - 1) \<le> ?m" and hi: "?m < 2 ^ nat ?b"
    by auto
  have "(of_int ?m :: rat) < ?y" by linarith
  moreover have "(of_int (2 ^ nat (?b - 1)) :: rat) \<le> of_int ?m"
    using lo by (simp only: of_int_le_iff)
  ultimately have "(2::rat) ^ nat (?b - 1) < ?y" by simp
  then have "\<bar>x\<bar> * 2 ^ nat (?b - 1) < 1"
    using assms(1) by (simp add: field_simps)
  then have "\<bar>x\<bar> < 1 / 2 ^ nat (?b - 1)"
    by (simp add: field_simps)
  also have "\<dots> = 2 powi (- ?b + 1)"
    using b1 by (simp add: power_int_def field_simps)
  finally have up: "\<bar>x\<bar> < 2 powi (- ?b + 1)" .
  have "- ?b + 1 \<le> float_exponent x + 1" by (simp add: e)
  then have "(2::rat) powi (- ?b + 1) \<le> 2 powi (float_exponent x + 1)"
    by (intro power_int_increasing) simp_all
  with up show "\<bar>x\<bar> < 2 powi (float_exponent x + 1)" by linarith
  have "\<lceil>?y\<rceil> \<le> 2 ^ nat ?b" using hi by simp
  then have "?y \<le> of_int (2 ^ nat ?b)"
    by (simp only: ceiling_le_iff)
  then have "?y \<le> 2 ^ nat ?b" by simp
  then have "1 \<le> \<bar>x\<bar> * 2 ^ nat ?b"
    using assms(1) by (simp add: field_simps)
  then have "1 / 2 ^ nat ?b \<le> \<bar>x\<bar>"
    by (simp add: field_simps)
  moreover have "(2::rat) powi (- ?b) = 1 / 2 ^ nat ?b"
    using b1 by (simp add: power_int_def field_simps)
  ultimately have dn: "2 powi (- ?b) \<le> \<bar>x\<bar>" by simp
  show "2 powi (float_exponent x) \<le> \<bar>x\<bar> \<or> float_exponent x = - 1022"
    using dn by (auto simp: e max_def)
qed

lemma exponent_spec:
  assumes "x \<noteq> 0"
  shows "\<bar>x\<bar> < 2 powi (float_exponent x + 1)"
    and "2 powi (float_exponent x) \<le> \<bar>x\<bar> \<or> float_exponent x = - 1022"
    and "- 1022 \<le> float_exponent x"
proof -
  consider "1 \<le> \<bar>x\<bar>" | "0 < \<bar>x\<bar>" "\<bar>x\<bar> < 1"
    using assms by fastforce
  then have "\<bar>x\<bar> < 2 powi (float_exponent x + 1)
      \<and> (2 powi (float_exponent x) \<le> \<bar>x\<bar> \<or> float_exponent x = - 1022)
      \<and> - 1022 \<le> float_exponent x"
  proof cases
    case 1
    then show ?thesis using exponent_ge1[OF 1] by simp
  next
    case 2
    then show ?thesis using exponent_lt1[OF 2] by simp
  qed
  then show "\<bar>x\<bar> < 2 powi (float_exponent x + 1)"
    and "2 powi (float_exponent x) \<le> \<bar>x\<bar> \<or> float_exponent x = - 1022"
    and "- 1022 \<le> float_exponent x"
    by simp_all
qed

lemma exponent_unique:
  assumes "2 powi k \<le> \<bar>x\<bar>" and "\<bar>x\<bar> < 2 powi (k + 1)" and "- 1022 \<le> k"
  shows "float_exponent x = k"
proof -
  have "(0::rat) < 2 powi k" by (simp add: zero_less_power_int)
  then have "0 < \<bar>x\<bar>" using assms(1) by linarith
  then have x0: "x \<noteq> 0" by auto
  let ?e = "float_exponent x"
  note s = exponent_spec[OF x0]
  have "\<not> ?e < k"
  proof
    assume "?e < k"
    then have "?e + 1 \<le> k" by simp
    then have "(2::rat) powi (?e + 1) \<le> 2 powi k"
      by (intro power_int_increasing) simp_all
    with s(1) assms(1) show False by linarith
  qed
  moreover have "\<not> k < ?e"
  proof
    assume k: "k < ?e"
    then have "?e \<noteq> - 1022" using assms(3) by simp
    then have "2 powi ?e \<le> \<bar>x\<bar>" using s(2) by blast
    moreover have "(2::rat) powi (k + 1) \<le> 2 powi ?e"
      using k by (intro power_int_increasing) simp_all
    ultimately show False using assms(2) by linarith
  qed
  ultimately show ?thesis by linarith
qed

lemma exponent_mono:
  assumes "x \<noteq> 0" and "\<bar>x\<bar> \<le> \<bar>y\<bar>"
  shows "float_exponent x \<le> float_exponent y"
proof (rule ccontr)
  assume "\<not> ?thesis"
  then have lt: "float_exponent y < float_exponent x" by simp
  have y0: "y \<noteq> 0" using assms by auto
  have "float_exponent x \<noteq> - 1022"
    using lt exponent_spec(3)[OF y0] by simp
  then have "2 powi (float_exponent x) \<le> \<bar>x\<bar>"
    using exponent_spec(2)[OF assms(1)] by blast
  moreover have "(2::rat) powi (float_exponent y + 1) \<le> 2 powi (float_exponent x)"
    using lt by (intro power_int_increasing) simp_all
  ultimately show False
    using exponent_spec(1)[OF y0] assms(2) by linarith
qed


lemma float_round_0: "float_round 0 = 0"
  by (simp add: float_round_def round_half_even_def)

lemma quantum_pos: "(0::rat) < 2 powi k"
  by (simp add: zero_less_power_int)

lemma pow2_split: "(2::rat) powi (e + 1) = 2 ^ 53 * 2 powi (e - 52)"
proof -
  have "(2::rat) powi (e + 1) = 2 powi (53 + (e - 52))"
    by (rule arg_cong[where f = "power_int 2"]) simp
  also have "\<dots> = 2 powi 53 * 2 powi (e - 52)"
    by (rule power_int_add) simp
  finally show ?thesis by simp
qed

lemma pow2_split': "(2::rat) powi e = 2 ^ 52 * 2 powi (e - 52)"
proof -
  have "(2::rat) powi e = 2 powi (52 + (e - 52))"
    by (rule arg_cong[where f = "power_int 2"]) simp
  also have "\<dots> = 2 powi 52 * 2 powi (e - 52)"
    by (rule power_int_add) simp
  finally show ?thesis by simp
qed

lemma float_round_nonneg: "0 \<le> x \<Longrightarrow> 0 \<le> float_round x"
  unfolding float_round_def Let_def
  using rhe_ge[of 0 "x / 2 powi (float_exponent x - 52)"] quantum_pos[of "float_exponent x - 52"]
  by (simp add: zero_le_mult_iff less_imp_le)

lemma float_round_nonpos: "x \<le> 0 \<Longrightarrow> float_round x \<le> 0"
  unfolding float_round_def Let_def
  using rhe_le[of "x / 2 powi (float_exponent x - 52)" 0] quantum_pos[of "float_exponent x - 52"]
  by (simp add: mult_le_0_iff divide_le_0_iff less_imp_le)

lemma float_round_upper:
  assumes "x \<le> of_int m * 2 powi (float_exponent x - 52)"
  shows "float_round x \<le> of_int m * 2 powi (float_exponent x - 52)"
proof -
  let ?q = "(2::rat) powi (float_exponent x - 52)"
  have q: "0 < ?q" by (rule quantum_pos)
  have "x / ?q \<le> of_int m" using assms q by (simp add: field_simps)
  then have "round_half_even (x / ?q) \<le> m" by (rule rhe_le)
  then have "(of_int (round_half_even (x / ?q)) :: rat) \<le> of_int m"
    by (simp only: of_int_le_iff)
  then show ?thesis
    unfolding float_round_def Let_def using q by (simp add: mult_right_mono less_imp_le)
qed

lemma float_round_lower:
  assumes "of_int m * 2 powi (float_exponent x - 52) \<le> x"
  shows "of_int m * 2 powi (float_exponent x - 52) \<le> float_round x"
proof -
  let ?q = "(2::rat) powi (float_exponent x - 52)"
  have q: "0 < ?q" by (rule quantum_pos)
  have "of_int m \<le> x / ?q" using assms q by (simp add: field_simps)
  then have "m \<le> round_half_even (x / ?q)" by (rule rhe_ge)
  then have "(of_int m :: rat) \<le> of_int (round_half_even (x / ?q))"
    by (simp only: of_int_le_iff)
  then show ?thesis
    unfolding float_round_def Let_def using q by (simp add: mult_right_mono less_imp_le)
qed

lemma float_round_exact:
  assumes "x = of_int m * 2 powi (float_exponent x - 52)"
  shows "float_round x = x"
  using float_round_upper[of x m] float_round_lower[of m x] assms by simp

lemma float_round_binade_pos:
  assumes "0 < x"
  shows "float_round x \<le> 2 powi (float_exponent x + 1)"
    and "2 powi (float_exponent x) \<le> x \<Longrightarrow> 2 powi (float_exponent x) \<le> float_round x"
proof -
  have x0: "x \<noteq> 0" using assms by simp
  have "x < 2 powi (float_exponent x + 1)"
    using exponent_spec(1)[OF x0] assms by simp
  then have "x \<le> of_int (2 ^ 53) * 2 powi (float_exponent x - 52)"
    by (simp add: pow2_split)
  from float_round_upper[OF this] show "float_round x \<le> 2 powi (float_exponent x + 1)"
    by (simp add: pow2_split)
next
  assume "2 powi (float_exponent x) \<le> x"
  then have "of_int (2 ^ 52) * 2 powi (float_exponent x - 52) \<le> x"
    using pow2_split'[of "float_exponent x"] by simp
  from float_round_lower[OF this] show "2 powi (float_exponent x) \<le> float_round x"
    using pow2_split'[of "float_exponent x"] by simp
qed

lemma float_round_binade_neg:
  assumes "x < 0"
  shows "- (2 powi (float_exponent x + 1)) \<le> float_round x"
    and "x \<le> - (2 powi (float_exponent x)) \<Longrightarrow> float_round x \<le> - (2 powi (float_exponent x))"
proof -
  have x0: "x \<noteq> 0" using assms by simp
  have "- x < 2 powi (float_exponent x + 1)"
    using exponent_spec(1)[OF x0] assms by simp
  then have "of_int (- (2 ^ 53)) * 2 powi (float_exponent x - 52) \<le> x"
    by (simp add: pow2_split)
  from float_round_lower[OF this] show "- (2 powi (float_exponent x + 1)) \<le> float_round x"
    by (simp add: pow2_split)
next
  assume "x \<le> - (2 powi (float_exponent x))"
  then have "x \<le> of_int (- (2 ^ 52)) * 2 powi (float_exponent x - 52)"
    using pow2_split'[of "float_exponent x"] by simp
  from float_round_upper[OF this] show "float_round x \<le> - (2 powi (float_exponent x))"
    using pow2_split'[of "float_exponent x"] by simp
qed

lemma float_round_mono_same:
  assumes "x \<le> y" and "float_exponent x = float_exponent y"
  shows "float_round x \<le> float_round y"
proof -
  let ?q = "(2::rat) powi (float_exponent y - 52)"
  have q: "0 < ?q" by (rule quantum_pos)
  have "x / ?q \<le> y / ?q" using assms(1) q by (simp add: divide_right_mono less_imp_le)
  then have "round_half_even (x / ?q) \<le> round_half_even (y / ?q)" by (rule rhe_mono)
  then have "(of_int (round_half_even (x / ?q)) :: rat) \<le> of_int (round_half_even (y / ?q))"
    by (simp only: of_int_le_iff)
  then show ?thesis
    unfolding float_round_def Let_def assms(2) using q by (simp add: mult_right_mono less_imp_le)
qed

lemma float_round_mono:
  assumes "x \<le> y"
  shows "float_round x \<le> float_round y"
proof -
  consider "x \<le> 0" "0 \<le> y" | "0 < x" | "y < 0"
    using assms by linarith
  then show ?thesis
  proof cases
    case 1
    then show ?thesis
      using float_round_nonpos[of x] float_round_nonneg[of y] by linarith
  next
    case 2
    then have y: "0 < y" using assms by linarith
    have le: "float_exponent x \<le> float_exponent y"
      using exponent_mono[of x y] 2 y assms by simp
    show ?thesis
    proof (cases "float_exponent x = float_exponent y")
      case True
      then show ?thesis using float_round_mono_same[OF assms] by simp
    next
      case False
      then have lt: "float_exponent x + 1 \<le> float_exponent y" using le by simp
      have y0: "y \<noteq> 0" and x0: "x \<noteq> 0" using y 2 by simp_all
      have "float_exponent y \<noteq> - 1022"
        using lt exponent_spec(3)[OF x0] by simp
      then have "2 powi (float_exponent y) \<le> y"
        using exponent_spec(2)[OF y0] y by simp
      then have "2 powi (float_exponent y) \<le> float_round y"
        by (rule float_round_binade_pos(2)[OF y])
      moreover have "float_round x \<le> 2 powi (float_exponent x + 1)"
        by (rule float_round_binade_pos(1)[OF 2])
      moreover have "(2::rat) powi (float_exponent x + 1) \<le> 2 powi (float_exponent y)"
        using lt by (intro power_int_increasing) simp_all
      ultimately show ?thesis by linarith
    qed
  next
    case 3
    then have x: "x < 0" using assms by linarith
    have le: "float_exponent y \<le> float_exponent x"
      using exponent_mono[of y x] 3 x assms by simp
    show ?thesis
    proof (cases "float_exponent x = float_exponent y")
      case True
      then show ?thesis using float_round_mono_same[OF assms] by simp
    next
      case False
      then have lt: "float_exponent y + 1 \<le> float_exponent x" using le by simp
      have y0: "y \<noteq> 0" and x0: "x \<noteq> 0" using x 3 by simp_all
      have "float_exponent x \<noteq> - 1022"
        using lt exponent_spec(3)[OF y0] by simp
      then have "x \<le> - (2 powi (float_exponent x))"
        using exponent_spec(2)[OF x0] x by simp
      then have "float_round x \<le> - (2 powi (float_exponent x))"
        by (rule float_round_binade_neg(2)[OF x])
      moreover have "- (2 powi (float_exponent y + 1)) \<le> float_round y"
        by (rule float_round_binade_neg(1)[OF 3])
      moreover have "(2::rat) powi (float_exponent y + 1) \<le> 2 powi (float_exponent x)"
        using lt by (intro power_int_increasing) simp_all
      ultimately show ?thesis by linarith
    qed
  qed
qed


lemma float_round_minus: "float_round (- x) = - float_round x"
proof -
  have e: "float_exponent (- x) = float_exponent x"
    by (simp add: float_exponent_def)
  have r: "round_half_even (- y) = - round_half_even y" for y
  proof (cases "y = of_int \<lfloor>y\<rfloor>")
    case True
    then obtain n where "y = of_int n" by metis
    then show ?thesis
      using rhe_of_int[of n] rhe_of_int[of "- n"] by simp
  next
    case False
    then have f: "\<lfloor>- y\<rfloor> = - \<lfloor>y\<rfloor> - 1"
      by (metis ceiling_altdef ceiling_def add_diff_cancel_right' diff_minus_eq_add minus_diff_eq uminus_add_conv_diff)
    have "y - of_int \<lfloor>y\<rfloor> = 1 / 2 \<Longrightarrow> even \<lfloor>y\<rfloor> \<longleftrightarrow> odd (- \<lfloor>y\<rfloor> - 1)"
      by simp
    then show ?thesis
      unfolding round_half_even_def Let_def f
      by (auto simp: field_simps)
  qed
  show ?thesis
    by (simp add: float_round_def Let_def e r)
qed

lemma pow2_le_D:
  assumes "(2::rat) powi m \<le> 2 powi n"
  shows "m \<le> n"
proof (rule ccontr)
  assume "\<not> m \<le> n"
  then have "(2::rat) powi n < 2 powi m"
    by (intro power_int_strict_increasing) simp_all
  with assms show False by simp
qed

lemma float_round_pow2:
  assumes "- 1074 \<le> k"
  shows "float_round (2 powi k) = 2 powi k"
proof -
  let ?x = "(2::rat) powi k"
  let ?e = "float_exponent ?x"
  have x0: "?x \<noteq> 0" by simp
  have xa: "\<bar>?x\<bar> = ?x" using quantum_pos[of k] by simp
  have e: "?e = max k (- 1022)"
  proof (cases "- 1022 \<le> k")
    case True
    have "?x < 2 powi (k + 1)"
      by (intro power_int_strict_increasing) simp_all
    then have "?e = k"
      using True xa by (intro exponent_unique) simp_all
    then show ?thesis using True by simp
  next
    case False
    have "\<not> 2 powi ?e \<le> ?x"
    proof
      assume "2 powi ?e \<le> ?x"
      then have "?e \<le> k" by (rule pow2_le_D)
      then show False using False exponent_spec(3)[OF x0] by linarith
    qed
    then have "?e = - 1022"
      using exponent_spec(2)[OF x0] xa by simp
    then show ?thesis using False by simp
  qed
  have n: "0 \<le> k - ?e + 52" using assms by (simp add: e)
  have "?x = 2 powi ((k - ?e + 52) + (?e - 52))"
    by (rule arg_cong[where f = "power_int 2"]) simp
  also have "\<dots> = 2 powi (k - ?e + 52) * 2 powi (?e - 52)"
    by (rule power_int_add) simp
  also have "(2::rat) powi (k - ?e + 52) = of_int (2 ^ nat (k - ?e + 52))"
    using n by (simp add: power_int_def)
  finally have "?x = of_int (2 ^ nat (k - ?e + 52)) * 2 powi (?e - 52)" .
  then show ?thesis by (rule float_round_exact)
qed

lemma float_round_abs_le:
  assumes "\<bar>x\<bar> \<le> 2 ^ k"
  shows "\<bar>float_round x\<bar> \<le> 2 ^ k"
proof -
  have p: "float_round (2 ^ k) = 2 ^ k"
    using float_round_pow2[of "int k"] by simp
  have "float_round x \<le> float_round (2 ^ k)"
    using assms by (intro float_round_mono) simp
  moreover have "float_round (- (2 ^ k)) \<le> float_round x"
    using assms by (intro float_round_mono) simp
  ultimately show ?thesis
    by (simp add: p float_round_minus abs_le_iff)
qed

lemma float_round_of_int:
  assumes "\<bar>n\<bar> \<le> 2 ^ 53"
  shows "float_round (of_int n) = of_int n"
proof (cases "n = 0")
  case True
  then show ?thesis by (simp add: float_round_0)
next
  case False
  let ?x = "of_int n :: rat"
  let ?e = "float_exponent ?x"
  have x1: "1 \<le> \<bar>?x\<bar>"
    using False by (simp flip: of_int_abs)
  note s = exponent_ge1[OF x1]
  have "\<bar>?x\<bar> \<le> 2 ^ 53"
    using assms by (simp flip: of_int_abs add: of_int_le_numeral_power_cancel_iff)
  then have "(2::rat) powi ?e \<le> 2 powi 53" using s(1) by simp
  then have e53: "?e \<le> 53" by (simp only: power_int_le_imp_le_exp[of 2 ?e 53])
  show ?thesis
  proof (cases "?e = 53")
    case True
    then have "2 ^ 53 \<le> \<bar>?x\<bar>" using s(1) by simp
    then have "(2::int) ^ 53 \<le> \<bar>n\<bar>"
      by (simp flip: of_int_abs add: numeral_power_le_of_int_cancel_iff)
    then have "\<bar>n\<bar> = 2 ^ 53" using assms by simp
    then have "n = 2 ^ 53 \<or> n = - (2 ^ 53)" by linarith
    then have "?x = of_int (n div 2) * 2 powi (?e - 52)"
      unfolding True by auto
    then show ?thesis by (rule float_round_exact)
  next
    case False
    then have le: "0 \<le> 52 - ?e" using e53 by simp
    have "(2::rat) powi (52 - ?e) * 2 powi (?e - 52) = 2 powi ((52 - ?e) + (?e - 52))"
      by (rule power_int_add[symmetric]) simp
    then have "(2::rat) powi (52 - ?e) * 2 powi (?e - 52) = 1" by simp
    moreover have "(2::rat) powi (52 - ?e) = of_int (2 ^ nat (52 - ?e))"
      using le by (simp add: power_int_def)
    ultimately have "?x = of_int (n * 2 ^ nat (52 - ?e)) * 2 powi (?e - 52)"
      by (simp add: mult.assoc)
    then show ?thesis by (rule float_round_exact)
  qed
qed

lemma float_exponent_0: "float_exponent 0 = 0"
proof -
  have "bitlen (- 1) = 0" by (simp add: bitlen_eq_zero_iff)
  then show ?thesis by (simp add: float_exponent_def)
qed

lemma float_of_Inr:
  assumes "\<bar>x\<bar> \<le> 2 ^ k" and "k < 1024"
  shows "float_of x = Inr (float_round x)"
proof -
  let ?r = "float_round x"
  have r: "\<bar>?r\<bar> \<le> 2 ^ k" using assms(1) by (rule float_round_abs_le)
  have "float_exponent ?r < 1024"
  proof (cases "?r = 0")
    case True
    then show ?thesis by (simp add: float_exponent_0)
  next
    case False
    show ?thesis
    proof (rule ccontr)
      assume "\<not> float_exponent ?r < 1024"
      then have e: "1024 \<le> float_exponent ?r" by simp
      then have "2 powi (float_exponent ?r) \<le> \<bar>?r\<bar>"
        using exponent_spec(2)[OF False] by auto
      then have "(2::rat) powi (float_exponent ?r) \<le> 2 powi (int k)"
        using r by simp
      then have "float_exponent ?r \<le> int k" by (rule pow2_le_D)
      then show False using e assms(2) by simp
    qed
  qed
  then show ?thesis by (simp add: float_of_def)
qed


subsection \<open>Float arithmetic on bounded integers\<close>

lemma py_float_exact: "\<bar>n\<bar> \<le> 2 ^ 53 \<Longrightarrow> py_float n = Inr (of_int n)"
proof -
  assume a: "\<bar>n\<bar> \<le> 2 ^ 53"
  then have "\<bar>of_int n :: rat\<bar> \<le> 2 ^ 53"
    by (simp flip: of_int_abs add: of_int_le_numeral_power_cancel_iff)
  then have "float_of (of_int n) = Inr (float_round (of_int n))"
    by (rule float_of_Inr) simp
  then show ?thesis
    using float_round_of_int[OF a] by (simp add: py_float_def)
qed

lemma float_of_cases: "float_of x = Inr (float_round x) \<or> float_of x = Inl OverflowError"
  by (simp add: float_of_def Let_def)

lemma py_truediv_cases:
  "b \<noteq> 0 \<Longrightarrow> py_truediv a b = Inr (float_round (of_int a / of_int b)) \<or> py_truediv a b = Inl OverflowError"
  using float_of_cases[of "of_int a / of_int b"] by (simp add: py_truediv_def)

lemma py_truediv_ok:
  assumes "b \<noteq> 0" and "\<bar>a\<bar> \<le> 2 ^ 53"
  shows "py_truediv a b = Inr (float_round (of_int a / of_int b))"
proof -
  have "1 \<le> \<bar>of_int b :: rat\<bar>"
    using assms(1) by (simp flip: of_int_abs)
  then have "\<bar>of_int a / of_int b :: rat\<bar> \<le> \<bar>of_int a\<bar>"
    by (simp add: field_simps mult_le_cancel_left1)
  also have "\<dots> \<le> 2 ^ 53"
    using assms(2) by (simp flip: of_int_abs add: of_int_le_numeral_power_cancel_iff)
  finally have "float_of (of_int a / of_int b) = Inr (float_round (of_int a / of_int b))"
    by (rule float_of_Inr) simp
  then show ?thesis using assms(1) by (simp add: py_truediv_def)
qed

lemma float_mul_ok:
  assumes "\<bar>x\<bar> \<le> 2 ^ j" and "\<bar>y\<bar> \<le> 2 ^ k" and "j + k < 1024"
  shows "float_mul x y = Inr (float_round (x * y))" and "\<bar>float_round (x * y)\<bar> \<le> 2 ^ (j + k)"
proof -
  have "\<bar>x * y\<bar> \<le> 2 ^ j * 2 ^ k"
    unfolding abs_mult using assms(1,2) by (intro mult_mono) simp_all
  then have b: "\<bar>x * y\<bar> \<le> 2 ^ (j + k)" by (simp add: power_add)
  then show "float_mul x y = Inr (float_round (x * y))"
    unfolding float_mul_def using assms(3) by (rule float_of_Inr)
  show "\<bar>float_round (x * y)\<bar> \<le> 2 ^ (j + k)"
    using b by (rule float_round_abs_le)
qed

lemma float_add_ok:
  assumes "\<bar>x\<bar> \<le> 2 ^ k" and "\<bar>y\<bar> \<le> 2 ^ k" and "Suc k < 1024"
  shows "float_add x y = Inr (float_round (x + y))" and "\<bar>float_round (x + y)\<bar> \<le> 2 ^ Suc k"
proof -
  have b: "\<bar>x + y\<bar> \<le> 2 ^ Suc k"
    using assms(1,2) by simp
  then show "float_add x y = Inr (float_round (x + y))"
    unfolding float_add_def using assms(3) by (rule float_of_Inr)
  show "\<bar>float_round (x + y)\<bar> \<le> 2 ^ Suc k"
    using b by (rule float_round_abs_le)
qed


lemma acotado_53: "acotado n \<Longrightarrow> \<bar>n\<bar> \<le> 2 ^ 53"
  by (simp add: acotado_def)

lemma acotado_diff: "acotado a \<Longrightarrow> acotado b \<Longrightarrow> \<bar>a - b\<bar> \<le> 2 ^ 53"
  by (simp add: acotado_def)

lemma of_int_abs_le: "\<bar>n\<bar> \<le> 2 ^ k \<Longrightarrow> \<bar>of_int n :: rat\<bar> \<le> 2 ^ k"
proof -
  assume "\<bar>n\<bar> \<le> 2 ^ k"
  then have "(of_int \<bar>n\<bar> :: rat) \<le> of_int (2 ^ k)" by (simp only: of_int_le_iff)
  then show ?thesis by simp
qed

lemma py_mul_float_int_ok:
  assumes "\<bar>x\<bar> \<le> 2 ^ j" and "\<bar>n\<bar> \<le> 2 ^ 53" and "j + 53 < 1024"
  shows "py_mul_float_int x n = Inr (float_round (x * of_int n))"
    and "\<bar>float_round (x * of_int n)\<bar> \<le> 2 ^ (j + 53)"
proof -
  have n: "\<bar>of_int n :: rat\<bar> \<le> 2 ^ 53" using assms(2) by (rule of_int_abs_le)
  show "py_mul_float_int x n = Inr (float_round (x * of_int n))"
    using float_mul_ok(1)[OF assms(1) n assms(3)] py_float_exact[OF assms(2)]
    by (simp add: py_mul_float_int_def)
  show "\<bar>float_round (x * of_int n)\<bar> \<le> 2 ^ (j + 53)"
    by (rule float_mul_ok(2)[OF assms(1) n assms(3)])
qed

lemma py_add_int_float_ok:
  assumes "\<bar>n\<bar> \<le> 2 ^ 53" and "\<bar>x\<bar> \<le> 2 ^ k" and "53 \<le> k" and "Suc k < 1024"
  shows "py_add_int_float n x = Inr (float_round (of_int n + x))"
proof -
  have "\<bar>of_int n :: rat\<bar> \<le> 2 ^ 53" using assms(1) by (rule of_int_abs_le)
  also have "(2::rat) ^ 53 \<le> 2 ^ k" using assms(3) by (intro power_increasing) simp_all
  finally have n: "\<bar>of_int n :: rat\<bar> \<le> 2 ^ k" .
  show ?thesis
    using float_add_ok(1)[OF n assms(2) assms(4)] py_float_exact[OF assms(1)]
    by (simp add: py_add_int_float_def)
qed

lemma float_round_of_int_acotado: "\<bar>n\<bar> \<le> 2 ^ 53 \<Longrightarrow> float_round (of_int n) = of_int n"
  by (rule float_round_of_int)

lemma float_round_between:
  assumes "of_int a \<le> x" and "x \<le> of_int b" and "\<bar>a\<bar> \<le> 2 ^ 53" and "\<bar>b\<bar> \<le> 2 ^ 53"
  shows "of_int a \<le> float_round x" and "float_round x \<le> of_int b"
  using float_round_mono[OF assms(1)] float_round_mono[OF assms(2)]
    float_round_of_int[OF assms(3)] float_round_of_int[OF assms(4)]
  by simp_all

lemma py_round_mono: "x \<le> y \<Longrightarrow> py_round x \<le> py_round y"
  unfolding py_round_def by (rule rhe_mono)

lemma py_round_of_int: "py_round (of_int n) = n"
  unfolding py_round_def by (rule rhe_of_int)

lemma ratio_01:
  assumes "s_inf \<le> s" and "s \<le> s_sup" and "s_inf < s_sup"
  shows "0 \<le> float_round (of_int (s - s_inf) / of_int (s_sup - s_inf))"
    and "float_round (of_int (s - s_inf) / of_int (s_sup - s_inf)) \<le> 1"
proof -
  let ?q = "of_int (s - s_inf) / of_int (s_sup - s_inf) :: rat"
  have d: "(0::rat) < of_int (s_sup - s_inf)" using assms(3) by simp
  have n: "(0::rat) \<le> of_int (s - s_inf)" using assms(1) by simp
  have "(of_int (s - s_inf) :: rat) \<le> of_int (s_sup - s_inf)"
    using assms(2) by simp
  then have "?q \<le> 1" using d by (simp add: field_simps)
  then have "float_round ?q \<le> float_round 1" by (rule float_round_mono)
  moreover have "float_round 1 = 1" using float_round_of_int[of 1] by simp
  ultimately show "float_round ?q \<le> 1" by simp
  have "0 \<le> ?q" using d n by simp
  then show "0 \<le> float_round ?q" by (rule float_round_nonneg)
qed

lemma interpolacion_lineal_ok:
  assumes "acotado s_inf" "acotado v_inf" "acotado s_sup" "acotado v_sup" "acotado s"
    and "s_inf \<le> s" and "s \<le> s_sup" and "s_inf < s_sup"
  shows "interpolacion_lineal s_inf v_inf s_sup v_sup s
           = Inr (py_round (interp_val s_inf v_inf s_sup v_sup s))"
proof -
  let ?r = "float_round (of_int (s - s_inf) / of_int (s_sup - s_inf))"
  have 1: "py_truediv (s - s_inf) (s_sup - s_inf) = Inr ?r"
    using assms(8) acotado_diff[OF assms(5) assms(1)] by (intro py_truediv_ok) simp_all
  have r: "\<bar>?r\<bar> \<le> 2 ^ 0"
    using ratio_01[OF assms(6,7,8)] by simp
  have dv: "\<bar>v_sup - v_inf\<bar> \<le> 2 ^ 53" using assms(4,2) by (rule acotado_diff)
  note m = py_mul_float_int_ok[OF r dv]
  have 2: "py_mul_float_int ?r (v_sup - v_inf) = Inr (float_round (?r * of_int (v_sup - v_inf)))"
    using m(1) by simp
  have p: "\<bar>float_round (?r * of_int (v_sup - v_inf))\<bar> \<le> 2 ^ 53"
    using m(2) by simp
  have 3: "py_add_int_float v_inf (float_round (?r * of_int (v_sup - v_inf)))
        = Inr (float_round (of_int v_inf + float_round (?r * of_int (v_sup - v_inf))))"
    by (rule py_add_int_float_ok[OF acotado_53[OF assms(2)] p]) simp_all
  show ?thesis
    by (simp only: interpolacion_lineal_def interp_val_def 1 2 3 bind.simps)
qed


lemma interp_val_between:
  assumes "acotado v_inf" "acotado v_sup"
    and "s_inf \<le> s" and "s \<le> s_sup" and "s_inf < s_sup"
  shows "of_int (min v_inf v_sup) \<le> interp_val s_inf v_inf s_sup v_sup s"
    and "interp_val s_inf v_inf s_sup v_sup s \<le> of_int (max v_inf v_sup)"
proof -
  let ?r = "float_round (of_int (s - s_inf) / of_int (s_sup - s_inf))"
  let ?d = "of_int (v_sup - v_inf) :: rat"
  let ?p = "float_round (?r * ?d)"
  note r = ratio_01[OF assms(3,4,5)]
  have dv: "\<bar>v_sup - v_inf\<bar> \<le> 2 ^ 53" using assms(2,1) by (rule acotado_diff)
  have fd: "float_round ?d = ?d" using dv by (rule float_round_of_int)
  have a: "\<bar>v_inf\<bar> \<le> 2 ^ 53" "\<bar>v_sup\<bar> \<le> 2 ^ 53"
    using acotado_53 assms(1,2) by blast+
  have "of_int (min v_inf v_sup) \<le> interp_val s_inf v_inf s_sup v_sup s
      \<and> interp_val s_inf v_inf s_sup v_sup s \<le> of_int (max v_inf v_sup)"
  proof (cases "v_inf \<le> v_sup")
    case True
    then have d0: "0 \<le> ?d" by simp
    have "0 \<le> ?r * ?d" using r(1) d0 by simp
    then have p0: "0 \<le> ?p" by (rule float_round_nonneg)
    have "?r * ?d \<le> 1 * ?d" using r(2) d0 by (intro mult_right_mono) simp_all
    then have "?p \<le> float_round ?d" using float_round_mono[of "?r * ?d" ?d] by simp
    then have p1: "?p \<le> ?d" by (simp only: fd)
    have lo: "of_int v_inf \<le> of_int v_inf + ?p" using p0 by simp
    have hi: "of_int v_inf + ?p \<le> of_int v_sup" using p1 by simp
    show ?thesis
      using float_round_between[OF lo hi a] True
      by (simp add: interp_val_def min_def max_def)
  next
    case False
    then have d0: "?d \<le> 0" by simp
    have "?r * ?d \<le> 0" using r(1) d0 by (simp add: mult_nonneg_nonpos)
    then have p0: "?p \<le> 0" by (rule float_round_nonpos)
    have "1 * ?d \<le> ?r * ?d" using r(2) d0 by (intro mult_right_mono_neg) simp_all
    then have "float_round ?d \<le> ?p" using float_round_mono[of ?d "?r * ?d"] by simp
    then have p1: "?d \<le> ?p" by (simp only: fd)
    have hi: "of_int v_inf + ?p \<le> of_int v_inf" using p0 by simp
    have lo: "of_int v_sup \<le> of_int v_inf + ?p" using p1 by simp
    show ?thesis
      using float_round_between[OF lo hi a(2,1)] False
      by (simp add: interp_val_def min_def max_def)
  qed
  then show "of_int (min v_inf v_sup) \<le> interp_val s_inf v_inf s_sup v_sup s"
    and "interp_val s_inf v_inf s_sup v_sup s \<le> of_int (max v_inf v_sup)"
    by simp_all
qed

lemma interp_val_mono:
  assumes "v_inf \<le> v_sup" and "s_inf < s_sup" and "s \<le> s'"
  shows "interp_val s_inf v_inf s_sup v_sup s \<le> interp_val s_inf v_inf s_sup v_sup s'"
proof -
  let ?d = "of_int (v_sup - v_inf) :: rat"
  have d0: "0 \<le> ?d" using assms(1) by simp
  have q: "(0::rat) < of_int (s_sup - s_inf)" using assms(2) by simp
  have "(of_int (s - s_inf) :: rat) \<le> of_int (s' - s_inf)" using assms(3) by simp
  then have "(of_int (s - s_inf) :: rat) / of_int (s_sup - s_inf)
      \<le> of_int (s' - s_inf) / of_int (s_sup - s_inf)"
    using q by (intro divide_right_mono) simp_all
  then have "float_round (of_int (s - s_inf) / of_int (s_sup - s_inf))
      \<le> float_round (of_int (s' - s_inf) / of_int (s_sup - s_inf))"
    by (rule float_round_mono)
  then have "float_round (of_int (s - s_inf) / of_int (s_sup - s_inf)) * ?d
      \<le> float_round (of_int (s' - s_inf) / of_int (s_sup - s_inf)) * ?d"
    using d0 by (intro mult_right_mono)
  then have "float_round (float_round (of_int (s - s_inf) / of_int (s_sup - s_inf)) * ?d)
      \<le> float_round (float_round (of_int (s' - s_inf) / of_int (s_sup - s_inf)) * ?d)"
    by (rule float_round_mono)
  then show ?thesis
    unfolding interp_val_def by (intro float_round_mono) simp
qed

lemma float_0_7_bounds: "0 \<le> float_0_7" "\<bar>float_0_7\<bar> \<le> 2 ^ 0"
  by (simp_all add: float_0_7_def)

lemma abs_div_le:
  fixes a b :: rat
  assumes "1 \<le> \<bar>b\<bar>"
  shows "\<bar>a / b\<bar> \<le> \<bar>a\<bar>"
proof -
  have "\<bar>a\<bar> / \<bar>b\<bar> \<le> \<bar>a\<bar> / 1"
    using assms by (intro divide_left_mono) simp_all
  then show ?thesis by simp
qed

lemma pendiente_ok:
  assumes "acotado v" "acotado v'" and "s \<noteq> s'"
  shows "py_truediv (v' - v) (s' - s) = Inr (float_round (of_int (v' - v) / of_int (s' - s)))"
    and "\<bar>float_round (of_int (v' - v) / of_int (s' - s))\<bar> \<le> 2 ^ 53"
proof -
  have dv: "\<bar>v' - v\<bar> \<le> 2 ^ 53" using assms(2,1) by (rule acotado_diff)
  show "py_truediv (v' - v) (s' - s) = Inr (float_round (of_int (v' - v) / of_int (s' - s)))"
    using assms(3) dv by (intro py_truediv_ok) simp_all
  have "1 \<le> \<bar>of_int (s' - s) :: rat\<bar>"
    using assms(3) by (simp flip: of_int_abs)
  then have "\<bar>of_int (v' - v) / of_int (s' - s) :: rat\<bar> \<le> \<bar>of_int (v' - v)\<bar>"
    by (rule abs_div_le)
  also have "\<dots> \<le> 2 ^ 53" using dv by (rule of_int_abs_le)
  finally show "\<bar>float_round (of_int (v' - v) / of_int (s' - s))\<bar> \<le> 2 ^ 53"
    by (rule float_round_abs_le)
qed

lemma pendiente_nonneg:
  assumes "v \<le> v'" and "s < s'"
  shows "0 \<le> float_round (of_int (v' - v) / of_int (s' - s))"
  using assms by (intro float_round_nonneg) simp

lemma extrapolacion_inferior_ok:
  assumes "acotado s_min" "acotado v_min" "acotado v_sig" "acotado s"
    and "s_min \<noteq> s_sig"
  shows "extrapolacion_inferior s_min v_min s_sig v_sig s
           = Inr (max 40 (min 160 (py_round (extra_inf_val s_min v_min s_sig v_sig s))))"
proof -
  let ?m = "float_round (of_int (v_sig - v_min) / of_int (s_sig - s_min))"
  note pd = pendiente_ok[OF assms(2,3,5)]
  have ds: "\<bar>s - s_min\<bar> \<le> 2 ^ 53" using assms(4,1) by (rule acotado_diff)
  note m = py_mul_float_int_ok[OF pd(2) ds]
  have 2: "py_mul_float_int ?m (s - s_min) = Inr (float_round (?m * of_int (s - s_min)))"
    using m(1) by simp
  have p: "\<bar>float_round (?m * of_int (s - s_min))\<bar> \<le> 2 ^ 106"
    using m(2) by simp
  have 3: "py_add_int_float v_min (float_round (?m * of_int (s - s_min)))
        = Inr (float_round (of_int v_min + float_round (?m * of_int (s - s_min))))"
    by (rule py_add_int_float_ok[OF acotado_53[OF assms(2)] p]) simp_all
  show ?thesis
    by (simp only: extrapolacion_inferior_def extra_inf_val_def pd(1) 2 3 bind.simps)
qed

lemma extrapolacion_superior_ok:
  assumes "acotado s_max" "acotado v_max" "acotado v_ant" "acotado s"
    and "s_ant \<noteq> s_max"
  shows "extrapolacion_superior s_ant v_ant s_max v_max s
           = Inr (max v_max (min 160 (py_round (extra_sup_val s_ant v_ant s_max v_max s))))"
proof -
  let ?m = "float_round (of_int (v_max - v_ant) / of_int (s_max - s_ant))"
  let ?c = "float_round (?m * float_0_7)"
  note pd = pendiente_ok[OF assms(3,2,5)]
  note c = float_mul_ok[OF pd(2) float_0_7_bounds(2)]
  have 1: "float_mul ?m float_0_7 = Inr ?c" using c(1) by simp
  have cb: "\<bar>?c\<bar> \<le> 2 ^ 53" using c(2) by simp
  have ds: "\<bar>s - s_max\<bar> \<le> 2 ^ 53" using assms(4,1) by (rule acotado_diff)
  note m = py_mul_float_int_ok[OF cb ds]
  have 2: "py_mul_float_int ?c (s - s_max) = Inr (float_round (?c * of_int (s - s_max)))"
    using m(1) by simp
  have p: "\<bar>float_round (?c * of_int (s - s_max))\<bar> \<le> 2 ^ 106"
    using m(2) by simp
  have 3: "py_add_int_float v_max (float_round (?c * of_int (s - s_max)))
        = Inr (float_round (of_int v_max + float_round (?c * of_int (s - s_max))))"
    by (rule py_add_int_float_ok[OF acotado_53[OF assms(2)] p]) simp_all
  show ?thesis
    by (simp only: extrapolacion_superior_def extra_sup_val_def pd(1) 1 2 3 bind.simps)
qed

lemma extra_inf_val_mono:
  assumes "v_min \<le> v_sig" and "s_min < s_sig" and "s \<le> s'"
  shows "extra_inf_val s_min v_min s_sig v_sig s \<le> extra_inf_val s_min v_min s_sig v_sig s'"
proof -
  let ?m = "float_round (of_int (v_sig - v_min) / of_int (s_sig - s_min))"
  have m0: "0 \<le> ?m" using assms(1,2) by (rule pendiente_nonneg)
  have "(of_int (s - s_min) :: rat) \<le> of_int (s' - s_min)" using assms(3) by simp
  then have "?m * of_int (s - s_min) \<le> ?m * of_int (s' - s_min)"
    using m0 by (intro mult_left_mono)
  then have "float_round (?m * of_int (s - s_min)) \<le> float_round (?m * of_int (s' - s_min))"
    by (rule float_round_mono)
  then show ?thesis
    unfolding extra_inf_val_def by (intro float_round_mono) simp
qed

lemma extra_inf_val_le:
  assumes "v_min \<le> v_sig" and "s_min < s_sig" and "s \<le> s_min" and "acotado v_min"
  shows "extra_inf_val s_min v_min s_sig v_sig s \<le> of_int v_min"
proof -
  let ?m = "float_round (of_int (v_sig - v_min) / of_int (s_sig - s_min))"
  have m0: "0 \<le> ?m" using assms(1,2) by (rule pendiente_nonneg)
  have "(of_int (s - s_min) :: rat) \<le> 0" using assms(3) by simp
  then have "?m * of_int (s - s_min) \<le> 0"
    using m0 by (simp add: mult_nonneg_nonpos)
  then have "float_round (?m * of_int (s - s_min)) \<le> 0" by (rule float_round_nonpos)
  then have "of_int v_min + float_round (?m * of_int (s - s_min)) \<le> of_int v_min" by simp
  then have "extra_inf_val s_min v_min s_sig v_sig s \<le> float_round (of_int v_min)"
    unfolding extra_inf_val_def by (rule float_round_mono)
  then show ?thesis
    using float_round_of_int[OF acotado_53[OF assms(4)]] by simp
qed

lemma extra_sup_val_mono:
  assumes "v_ant \<le> v_max" and "s_ant < s_max" and "s \<le> s'"
  shows "extra_sup_val s_ant v_ant s_max v_max s \<le> extra_sup_val s_ant v_ant s_max v_max s'"
proof -
  let ?m = "float_round (of_int (v_max - v_ant) / of_int (s_max - s_ant))"
  let ?c = "float_round (?m * float_0_7)"
  have m0: "0 \<le> ?m" using assms(1,2) by (rule pendiente_nonneg)
  have "0 \<le> ?m * float_0_7" using m0 float_0_7_bounds(1) by simp
  then have c0: "0 \<le> ?c" by (rule float_round_nonneg)
  have "(of_int (s - s_max) :: rat) \<le> of_int (s' - s_max)" using assms(3) by simp
  then have "?c * of_int (s - s_max) \<le> ?c * of_int (s' - s_max)"
    using c0 by (intro mult_left_mono)
  then have "float_round (?c * of_int (s - s_max)) \<le> float_round (?c * of_int (s' - s_max))"
    by (rule float_round_mono)
  then show ?thesis
    unfolding extra_sup_val_def by (intro float_round_mono) simp
qed

subsection \<open>Parsing raises nothing but \<open>ValueError\<close>\<close>

lemma py_int_error: "py_int s = Inl e \<Longrightarrow> e = ValueError"
  by (auto simp: py_int_def Let_def split: option.splits if_splits)

text \<open>
  The separators 28 to 31 are not skipped, the no-break space and the next-line
  character are, and a literal of 4301 digits is refused.
\<close>

lemma int_no_salta_separadores:
  "py_int [CHR 0x1F, CHR ''5''] = Inl ValueError
   \<and> py_int [CHR 0x1C, CHR ''8''] = Inl ValueError
   \<and> py_int [CHR 0xA0, CHR ''5'', CHR 0x85] = Inr 5
   \<and> py_int '' +1_0  '' = Inr 10"
  by code_simp

lemma separador_en_celda:
  "esta_en_rango 5 (Some [CHR 0x1F, CHR ''5'']) = Inr False
   \<and> convertir_edad_a_grupo (CHR 0x1C # ''8:6'') = Inl ValueError"
  by code_simp

lemma int_limite_digitos:
  "py_int (replicate 4300 CHR ''0'' @ ''7'') = Inl ValueError"
  by (simp add: py_int_def int_strip_def es_espacio_def es_digito_def parse_sin_signo_def
      max_str_digits_def Let_def split: option.splits)

lemma unpack_error: "unpack_dos_enteros ps = Inl e \<Longrightarrow> e = ValueError"
  by (auto simp: unpack_dos_enteros_def split: list.splits sum.splits dest: py_int_error)

lemma py_split_sin_separador: "c \<notin> set s \<Longrightarrow> py_split c s = [s]"
  by (induction s) auto

lemma py_split_no_vacio: "py_split c s \<noteq> []"
  by (induction s) (auto split: list.splits)

lemma py_split_con_separador: "c \<in> set s \<Longrightarrow> length (py_split c s) \<ge> 2"
proof (induction s)
  case Nil
  then show ?case by simp
next
  case (Cons x xs)
  show ?case
  proof (cases "x = c")
    case True
    then show ?thesis
      using py_split_no_vacio[of c xs] by (cases "py_split c xs") auto
  next
    case False
    with Cons show ?thesis by (auto split: list.splits)
  qed
qed

lemma esta_en_rango_cases:
  "esta_en_rango p r =
     (case r of None \<Rightarrow> Inr False
      | Some s \<Rightarrow> if s = [] \<or> s = ''-'' then Inr False
          else if CHR ''-'' \<in> set s then
            (case unpack_dos_enteros (py_split CHR ''-'' s) of
               Inr (lo, hi) \<Rightarrow> Inr (lo \<le> p \<and> p \<le> hi) | Inl e \<Rightarrow> Inr False)
          else (case py_int s of Inr n \<Rightarrow> Inr (p = n) | Inl e \<Rightarrow> Inr False))"
  by (auto simp: esta_en_rango_def split: option.splits sum.splits error.splits
      dest: py_int_error unpack_error)

lemma esta_en_rango_Inr: "\<exists>b. esta_en_rango p r = Inr b"
  by (auto simp: esta_en_rango_cases split: option.splits sum.splits)

lemma rango_bajo_alto:
  assumes "py_split CHR ''-'' s = [a, b]" and "py_int a = Inr lo" and "py_int b = Inr hi"
  shows "esta_en_rango p (Some s) = Inr (lo \<le> p \<and> p \<le> hi)"
proof -
  have m: "CHR ''-'' \<in> set s"
    using assms(1) py_split_sin_separador[of "CHR ''-''" s] by auto
  have "py_int [] = Inl ValueError"
    by (simp add: py_int_def int_strip_def)
  then have "s \<noteq> ''-''" and "s \<noteq> []"
    using assms by auto
  then show ?thesis
    using m assms by (simp add: esta_en_rango_cases unpack_dos_enteros_def)
qed

lemma rango_valor_unico:
  assumes "CHR ''-'' \<notin> set s" and "py_int s = Inr n"
  shows "esta_en_rango p (Some s) = Inr (p = n)"
proof -
  have "py_int [] = Inl ValueError"
    by (simp add: py_int_def int_strip_def)
  then have "s \<noteq> []" and "s \<noteq> ''-''"
    using assms by auto
  then show ?thesis
    using assms by (simp add: esta_en_rango_cases)
qed

subsection \<open>The row scan is a search for the first matching row\<close>

lemma buscar_en_tabla_find:
  "buscar_en_tabla sub p tabla =
     (case find (\<lambda>f. esta_en_rango p (map_of (celdas f) sub) = Inr True) tabla of
        Some f \<Rightarrow> Inr (puntaje_escala f) | None \<Rightarrow> Inl ValueError)"
proof (induction tabla)
  case Nil
  then show ?case by simp
next
  case (Cons f fs)
  obtain b where b: "esta_en_rango p (map_of (celdas f) sub) = Inr b"
    using esta_en_rango_Inr by blast
  show ?case using Cons b by (cases b) simp_all
qed

lemma find_primero:
  assumes "i < length xs" and "P (xs ! i)" and "\<forall>j<i. \<not> P (xs ! j)"
  shows "find P xs = Some (xs ! i)"
  using assms
proof (induction xs arbitrary: i)
  case Nil
  then show ?case by simp
next
  case (Cons x xs)
  show ?case
  proof (cases i)
    case 0
    with Cons.prems show ?thesis by simp
  next
    case (Suc k)
    have "\<not> P x" using Cons.prems(3) Suc by force
    moreover have "find P xs = Some (xs ! k)"
      using Cons.IH[of k] Cons.prems Suc by force
    ultimately show ?thesis using Suc by simp
  qed
qed

subsection \<open>The branches of the composite converter\<close>

lemma bind_assoc: "bind (bind m f) g = bind m (\<lambda>x. bind (f x) g)"
  by (cases m) simp_all

lemma py_min_Min: "xs \<noteq> [] \<Longrightarrow> py_min xs = Inr (Min (set xs))"
  using Min.set_eq_fold[of "hd xs" "tl xs"] by (cases xs) simp_all

lemma py_max_Max: "xs \<noteq> [] \<Longrightarrow> py_max xs = Inr (Max (set xs))"
  using Max.set_eq_fold[of "hd xs" "tl xs"] by (cases xs) simp_all

lemma py_index_nat: "i < length xs \<Longrightarrow> py_index xs (int i) = Inr (xs ! i)"
  by (simp add: py_index_def)

lemma py_index_0: "xs \<noteq> [] \<Longrightarrow> py_index xs 0 = Inr (xs ! 0)"
  by (simp add: py_index_def)

lemma py_index_1: "2 \<le> length xs \<Longrightarrow> py_index xs 1 = Inr (xs ! 1)"
  by (simp add: py_index_def)

lemma py_index_m1: "xs \<noteq> [] \<Longrightarrow> py_index xs (- 1) = Inr (xs ! (length xs - 1))"
  by (cases xs) (simp_all add: py_index_def nat_diff_distrib)

lemma py_index_m2: "2 \<le> length xs \<Longrightarrow> py_index xs (- 2) = Inr (xs ! (length xs - 2))"
proof -
  assume a: "2 \<le> length xs"
  then have "nat (int (length xs) + - 2) = length xs - 2" by simp
  then show ?thesis using a by (simp add: py_index_def)
qed

lemma interpolar_compuesto_primero:
  assumes "Suc i < length ds"
    and "suma (ds ! i) \<le> s \<and> s \<le> suma (ds ! Suc i)"
    and "\<forall>j<i. \<not> (suma (ds ! j) \<le> s \<and> s \<le> suma (ds ! Suc j))"
  shows "interpolar_compuesto ds nom s =
           bind (interpolacion_lineal (suma (ds ! i)) (valor (ds ! i))
                   (suma (ds ! Suc i)) (valor (ds ! Suc i)) s)
             (\<lambda>c. Inr (Some \<lparr>percentil = percentil (ds ! i), conf_90 = conf_90 (ds ! i),
                              conf_95 = conf_95 (ds ! i), compuesto = c,
                              nombre_escala = nom\<rparr>))"
  using assms
proof (induction ds nom s arbitrary: i rule: interpolar_compuesto.induct)
  case (1 fila_inf fila_sup resto nombre_tabla suma_escalar)
  show ?case
  proof (cases i)
    case 0
    with 1(2-) show ?thesis
      by (simp add: interpolacion_lineal_def bind_assoc)
  next
    case (Suc k)
    have no: "\<not> (suma fila_inf \<le> suma_escalar \<and> suma_escalar \<le> suma fila_sup)"
      using 1(4) Suc by force
    have "interpolar_compuesto (fila_sup # resto) nombre_tabla suma_escalar =
           bind (interpolacion_lineal (suma ((fila_sup # resto) ! k)) (valor ((fila_sup # resto) ! k))
                   (suma ((fila_sup # resto) ! Suc k)) (valor ((fila_sup # resto) ! Suc k)) suma_escalar)
             (\<lambda>c. Inr (Some \<lparr>percentil = percentil ((fila_sup # resto) ! k),
                              conf_90 = conf_90 ((fila_sup # resto) ! k),
                              conf_95 = conf_95 ((fila_sup # resto) ! k), compuesto = c,
                              nombre_escala = nombre_tabla\<rparr>))"
    proof (rule 1(1)[OF no])
      show "Suc k < length (fila_sup # resto)" using 1(2) Suc by simp
      show "suma ((fila_sup # resto) ! k) \<le> suma_escalar \<and>
            suma_escalar \<le> suma ((fila_sup # resto) ! Suc k)"
        using 1(3) Suc by simp
      show "\<forall>j<k. \<not> (suma ((fila_sup # resto) ! j) \<le> suma_escalar \<and>
            suma_escalar \<le> suma ((fila_sup # resto) ! Suc j))"
        using 1(4) Suc by force
    qed
    moreover have "(suma fila_inf \<le> suma_escalar \<and> suma_escalar \<le> suma fila_sup) = False"
      using no by blast
    ultimately show ?thesis using Suc by auto
  qed
next
  case (2 nombre_tabla suma_escalar)
  then show ?case by simp
next
  case (3 fila nombre_tabla suma_escalar)
  then show ?case by simp
qed

lemma interpolar_compuesto_ninguno:
  assumes "\<forall>j. Suc j < length ds \<longrightarrow> \<not> (suma (ds ! j) \<le> s \<and> s \<le> suma (ds ! Suc j))"
  shows "interpolar_compuesto ds nom s = Inr None"
  using assms
proof (induction ds nom s rule: interpolar_compuesto.induct)
  case (1 fila_inf fila_sup resto nombre_tabla suma_escalar)
  have no: "\<not> (suma fila_inf \<le> suma_escalar \<and> suma_escalar \<le> suma fila_sup)"
    using 1(2)[rule_format, of 0] by simp
  have "\<forall>j. Suc j < length (fila_sup # resto) \<longrightarrow>
      \<not> (suma ((fila_sup # resto) ! j) \<le> suma_escalar \<and>
         suma_escalar \<le> suma ((fila_sup # resto) ! Suc j))"
    using 1(2) by force
  then have "interpolar_compuesto (fila_sup # resto) nombre_tabla suma_escalar = Inr None"
    by (rule 1(1)[OF no])
  moreover have "(suma fila_inf \<le> suma_escalar \<and> suma_escalar \<le> suma fila_sup) = False"
    using no by blast
  ultimately show ?case by auto
qed simp_all


lemma find_ninguno: "(\<forall>f \<in> set xs. \<not> P f) \<Longrightarrow> find P xs = None"
  by (simp add: find_None_iff)

lemma convertir_en_tabla_exacta:
  assumes "i < length (datos te)" and "suma (datos te ! i) = s"
    and "\<forall>j<i. suma (datos te ! j) \<noteq> s"
  shows "convertir_en_tabla te s =
           Inr \<lparr>percentil = percentil (datos te ! i), conf_90 = conf_90 (datos te ! i),
                conf_95 = conf_95 (datos te ! i), compuesto = valor (datos te ! i),
                nombre_escala = nombre te\<rparr>"
proof -
  have "find (\<lambda>fila. suma fila = s) (datos te) = Some (datos te ! i)"
    using assms by (intro find_primero) simp_all
  then show ?thesis by (simp add: convertir_en_tabla_def)
qed

lemma convertir_en_tabla_abajo:
  assumes "2 \<le> length (datos te)" and "\<forall>f \<in> set (datos te). s < suma f"
  shows "convertir_en_tabla te s =
           bind (extrapolacion_inferior (suma (datos te ! 0)) (valor (datos te ! 0))
                   (suma (datos te ! 1)) (valor (datos te ! 1)) s)
             (\<lambda>c. Inr \<lparr>percentil = percentil (datos te ! 0), conf_90 = conf_90 (datos te ! 0),
                        conf_95 = conf_95 (datos te ! 0), compuesto = c,
                        nombre_escala = nombre te\<rparr>)"
proof -
  let ?ds = "datos te"
  have ne: "?ds \<noteq> []" using assms(1) by auto
  have f: "find (\<lambda>fila. suma fila = s) ?ds = None"
    using assms(2) by (intro find_ninguno) auto
  have m: "py_min (map suma ?ds) = Inr (Min (set (map suma ?ds)))"
    using ne by (intro py_min_Min) simp
  have lt: "s < Min (set (map suma ?ds))"
    using assms(2) ne by simp
  show ?thesis
    using py_index_0[OF ne] py_index_1[OF assms(1)] lt
    by (simp add: convertir_en_tabla_def f m extrapolacion_inferior_def bind_assoc)
qed

lemma convertir_en_tabla_arriba:
  assumes "2 \<le> length (datos te)" and "\<forall>f \<in> set (datos te). suma f < s"
  shows "convertir_en_tabla te s =
           bind (extrapolacion_superior
                   (suma (datos te ! (length (datos te) - 2)))
                   (valor (datos te ! (length (datos te) - 2)))
                   (suma (datos te ! (length (datos te) - 1)))
                   (valor (datos te ! (length (datos te) - 1))) s)
             (\<lambda>c. Inr \<lparr>percentil =
                          (if py_in_str ''99.9'' (percentil (datos te ! (length (datos te) - 1)))
                           then ''>99.9''
                           else percentil (datos te ! (length (datos te) - 1))),
                        conf_90 = conf_90 (datos te ! (length (datos te) - 1)),
                        conf_95 = conf_95 (datos te ! (length (datos te) - 1)),
                        compuesto = c, nombre_escala = nombre te\<rparr>)"
proof -
  let ?ds = "datos te"
  have ne: "?ds \<noteq> []" using assms(1) by auto
  have f: "find (\<lambda>fila. suma fila = s) ?ds = None"
    using assms(2) by (intro find_ninguno) auto
  have m: "py_min (map suma ?ds) = Inr (Min (set (map suma ?ds)))"
    using ne by (intro py_min_Min) simp
  have x: "py_max (map suma ?ds) = Inr (Max (set (map suma ?ds)))"
    using ne by (intro py_max_Max) simp
  have "suma (hd ?ds) \<in> set (map suma ?ds)" using ne by simp
  then have "Min (set (map suma ?ds)) \<le> suma (hd ?ds)"
    by (simp del: set_map)
  moreover have "suma (hd ?ds) < s" using assms(2) ne by simp
  ultimately have "Min (set (map suma ?ds)) < s" by linarith
  then have nlt: "\<not> s < Min (set (map suma ?ds))" by simp
  have gt: "Max (set (map suma ?ds)) < s"
    using assms(2) ne by simp
  show ?thesis
    using py_index_m1[OF ne] py_index_m2[OF assms(1)] nlt gt
    by (simp add: convertir_en_tabla_def f m x extrapolacion_superior_def bind_assoc)
qed

lemma convertir_en_tabla_interior:
  assumes "\<forall>f \<in> set (datos te). suma f \<noteq> s"
    and "Suc i < length (datos te)"
    and "suma (datos te ! i) \<le> s \<and> s \<le> suma (datos te ! Suc i)"
    and "\<forall>j<i. \<not> (suma (datos te ! j) \<le> s \<and> s \<le> suma (datos te ! Suc j))"
  shows "convertir_en_tabla te s =
           bind (interpolacion_lineal (suma (datos te ! i)) (valor (datos te ! i))
                   (suma (datos te ! Suc i)) (valor (datos te ! Suc i)) s)
             (\<lambda>c. Inr \<lparr>percentil = percentil (datos te ! i), conf_90 = conf_90 (datos te ! i),
                        conf_95 = conf_95 (datos te ! i), compuesto = c,
                        nombre_escala = nombre te\<rparr>)"
proof -
  let ?ds = "datos te"
  have ne: "?ds \<noteq> []" using assms(2) by auto
  have f: "find (\<lambda>fila. suma fila = s) ?ds = None"
    using assms(1) by (intro find_ninguno) auto
  have m: "py_min (map suma ?ds) = Inr (Min (set (map suma ?ds)))"
    using ne by (intro py_min_Min) simp
  have x: "py_max (map suma ?ds) = Inr (Max (set (map suma ?ds)))"
    using ne by (intro py_max_Max) simp
  have "suma (?ds ! i) \<in> set (map suma ?ds)" "suma (?ds ! Suc i) \<in> set (map suma ?ds)"
    using assms(2) by simp_all
  then have "Min (set (map suma ?ds)) \<le> suma (?ds ! i)"
    and "suma (?ds ! Suc i) \<le> Max (set (map suma ?ds))"
    by (simp_all del: set_map)
  then have nlt: "\<not> s < Min (set (map suma ?ds))" and ngt: "\<not> Max (set (map suma ?ds)) < s"
    using assms(3) by linarith+
  show ?thesis
    using nlt ngt
    by (simp add: convertir_en_tabla_def f m x
        interpolar_compuesto_primero[OF assms(2,3,4)] bind_assoc)
qed

lemma bind_Inl: "bind m f = Inl e \<Longrightarrow> m = Inl e \<or> (\<exists>x. m = Inr x \<and> f x = Inl e)"
  by (cases m) simp_all

lemma float_of_error: "float_of x = Inl e \<Longrightarrow> e = OverflowError"
  by (simp add: float_of_def Let_def split: if_splits)

lemma py_truediv_error: "py_truediv a b = Inl e \<Longrightarrow> b \<noteq> 0 \<Longrightarrow> e = OverflowError"
  by (simp add: py_truediv_def float_of_error)

lemma py_mul_float_int_error: "py_mul_float_int x n = Inl e \<Longrightarrow> e = OverflowError"
  unfolding py_mul_float_int_def py_float_def float_mul_def
  by (auto dest!: bind_Inl dest: float_of_error)

lemma py_add_int_float_error: "py_add_int_float n x = Inl e \<Longrightarrow> e = OverflowError"
  unfolding py_add_int_float_def py_float_def float_add_def
  by (auto dest!: bind_Inl dest: float_of_error)

lemma float_mul_error: "float_mul x y = Inl e \<Longrightarrow> e = OverflowError"
  unfolding float_mul_def by (rule float_of_error)

lemma interpolacion_lineal_error:
  "s_inf \<noteq> s_sup \<Longrightarrow> interpolacion_lineal s_inf v_inf s_sup v_sup s = Inl e \<Longrightarrow> e = OverflowError"
  unfolding interpolacion_lineal_def
  by (auto dest!: bind_Inl dest: py_truediv_error py_mul_float_int_error py_add_int_float_error)

lemma extrapolacion_inferior_error:
  "s_min \<noteq> s_sig \<Longrightarrow> extrapolacion_inferior s_min v_min s_sig v_sig s = Inl e \<Longrightarrow> e = OverflowError"
  unfolding extrapolacion_inferior_def
  by (auto dest!: bind_Inl dest: py_truediv_error py_mul_float_int_error py_add_int_float_error)

lemma extrapolacion_superior_error:
  "s_ant \<noteq> s_max \<Longrightarrow> extrapolacion_superior s_ant v_ant s_max v_max s = Inl e \<Longrightarrow> e = OverflowError"
  unfolding extrapolacion_superior_def
  by (auto dest!: bind_Inl dest: py_truediv_error py_mul_float_int_error py_add_int_float_error
      float_mul_error)

lemma bind_Inr: "bind m f = Inr y \<Longrightarrow> \<exists>x. m = Inr x \<and> f x = Inr y"
  by (cases m) simp_all

lemma extrapolacion_inferior_rango:
  "extrapolacion_inferior s_min v_min s_sig v_sig s = Inr c \<Longrightarrow> 40 \<le> c \<and> c \<le> 160"
  unfolding extrapolacion_inferior_def
  by (auto dest!: bind_Inr)

lemma extrapolacion_superior_rango:
  "extrapolacion_superior s_ant v_ant s_max v_max s = Inr c \<Longrightarrow> v_max \<le> c \<and> c \<le> max v_max 160"
  unfolding extrapolacion_superior_def
  by (auto dest!: bind_Inr)

lemma extrapolacion_inferior_div0:
  "extrapolacion_inferior s_min v_min s_min v_sig s = Inl ZeroDivisionError"
  by (simp add: extrapolacion_inferior_def py_truediv_def)

lemma extrapolacion_superior_div0:
  "extrapolacion_superior s_max v_ant s_max v_max s = Inl ZeroDivisionError"
  by (simp add: extrapolacion_superior_def py_truediv_def)

lemma ordenada_sin_exacta:
  assumes "sorted (map suma ds)" and "Suc i < length ds"
    and "suma (ds ! i) < s" and "s < suma (ds ! Suc i)"
  shows "\<forall>f \<in> set ds. suma f \<noteq> s"
    and "\<forall>j<i. \<not> (suma (ds ! j) \<le> s \<and> s \<le> suma (ds ! Suc j))"
proof -
  have mono: "suma (ds ! a) \<le> suma (ds ! b)" if "a \<le> b" "b < length ds" for a b
    using sorted_nth_mono[OF assms(1), of a b] that by simp
  show "\<forall>f \<in> set ds. suma f \<noteq> s"
  proof
    fix f assume "f \<in> set ds"
    then obtain k where k: "k < length ds" "f = ds ! k"
      by (auto simp: in_set_conv_nth)
    show "suma f \<noteq> s"
    proof (cases "k \<le> i")
      case True
      then have "suma (ds ! k) \<le> suma (ds ! i)" using mono assms(2) by simp
      then show ?thesis using assms(3) k by simp
    next
      case False
      then have "suma (ds ! Suc i) \<le> suma (ds ! k)" using mono k by simp
      then show ?thesis using assms(4) k by simp
    qed
  qed
  show "\<forall>j<i. \<not> (suma (ds ! j) \<le> s \<and> s \<le> suma (ds ! Suc j))"
  proof (intro allI impI)
    fix j assume "j < i"
    then have "suma (ds ! Suc j) \<le> suma (ds ! i)" using mono assms(2) by simp
    then show "\<not> (suma (ds ! j) \<le> s \<and> s \<le> suma (ds ! Suc j))"
      using assms(3) by simp
  qed
qed

lemma ordenada_existe_par:
  assumes "sorted (map suma ds)" and "\<forall>f \<in> set ds. suma f \<noteq> s"
    and "ds \<noteq> []" and "suma (hd ds) \<le> s" and "\<exists>b \<in> set ds. s \<le> suma b"
  shows "\<exists>i. Suc i < length ds \<and> suma (ds ! i) < s \<and> s < suma (ds ! Suc i)"
  using assms
proof (induction ds)
  case Nil
  then show ?case by simp
next
  case (Cons a r)
  have a: "suma a < s" using Cons.prems(2,4) by force
  show ?case
  proof (cases r)
    case Nil
    then show ?thesis using Cons.prems(5) a by simp
  next
    case (Cons b r')
    show ?thesis
    proof (cases "s < suma b")
      case True
      then show ?thesis using a Cons by (intro exI[of _ 0]) simp
    next
      case False
      have "\<exists>i. Suc i < length r \<and> suma (r ! i) < s \<and> s < suma (r ! Suc i)"
      proof (rule Cons.IH)
        show "sorted (map suma r)" using Cons.prems(1) by simp
        show "\<forall>f \<in> set r. suma f \<noteq> s" using Cons.prems(2) by simp
        show "r \<noteq> []" using Cons by simp
        show "suma (hd r) \<le> s" using False Cons by simp
        show "\<exists>b \<in> set r. s \<le> suma b" using Cons.prems(5) a by auto
      qed
      then obtain i where "Suc i < length r \<and> suma (r ! i) < s \<and> s < suma (r ! Suc i)" ..
      then show ?thesis by (intro exI[of _ "Suc i"]) simp
    qed
  qed
qed

lemma interpolacion_lineal_acotada:
  assumes "acotado s_inf" "acotado v_inf" "acotado s_sup" "acotado v_sup" "acotado s"
    and "s_inf < s" and "s < s_sup"
  shows "\<exists>c. interpolacion_lineal s_inf v_inf s_sup v_sup s = Inr c
            \<and> min v_inf v_sup \<le> c \<and> c \<le> max v_inf v_sup"
proof -
  have le: "s_inf \<le> s" "s \<le> s_sup" "s_inf < s_sup" using assms(6,7) by simp_all
  note b = interp_val_between[OF assms(2,4) le]
  have "min v_inf v_sup \<le> py_round (interp_val s_inf v_inf s_sup v_sup s)"
    unfolding py_round_def using b(1) by (rule rhe_ge)
  moreover have "py_round (interp_val s_inf v_inf s_sup v_sup s) \<le> max v_inf v_sup"
    unfolding py_round_def using b(2) by (rule rhe_le)
  ultimately show ?thesis
    using interpolacion_lineal_ok[OF assms(1-5) le] by simp
qed

subsection \<open>The branches of the CIT converter\<close>

lemma interpolar_cit_primero:
  assumes "Suc i < length ds"
    and "suma (ds ! i) \<le> s \<and> s \<le> suma (ds ! Suc i)"
    and "\<forall>j<i. \<not> (suma (ds ! j) \<le> s \<and> s \<le> suma (ds ! Suc j))"
  shows "interpolar_cit ds s =
           bind (interpolacion_lineal (suma (ds ! i)) (cit (ds ! i))
                   (suma (ds ! Suc i)) (cit (ds ! Suc i)) s)
             (\<lambda>c. Inr (Some \<lparr>percentil = percentil (ds ! i), conf_90 = conf_90 (ds ! i),
                              conf_95 = conf_95 (ds ! i), compuesto = c\<rparr>))"
  using assms
proof (induction ds s arbitrary: i rule: interpolar_cit.induct)
  case (1 fila_inf fila_sup resto suma_escalar)
  show ?case
  proof (cases i)
    case 0
    with 1(2-) show ?thesis
      by (simp add: interpolacion_lineal_def bind_assoc)
  next
    case (Suc k)
    have no: "\<not> (suma fila_inf \<le> suma_escalar \<and> suma_escalar \<le> suma fila_sup)"
      using 1(4) Suc by force
    have "interpolar_cit (fila_sup # resto) suma_escalar =
           bind (interpolacion_lineal (suma ((fila_sup # resto) ! k)) (cit ((fila_sup # resto) ! k))
                   (suma ((fila_sup # resto) ! Suc k)) (cit ((fila_sup # resto) ! Suc k)) suma_escalar)
             (\<lambda>c. Inr (Some \<lparr>percentil = percentil ((fila_sup # resto) ! k),
                              conf_90 = conf_90 ((fila_sup # resto) ! k),
                              conf_95 = conf_95 ((fila_sup # resto) ! k), compuesto = c\<rparr>))"
    proof (rule 1(1)[OF no])
      show "Suc k < length (fila_sup # resto)" using 1(2) Suc by simp
      show "suma ((fila_sup # resto) ! k) \<le> suma_escalar \<and>
            suma_escalar \<le> suma ((fila_sup # resto) ! Suc k)"
        using 1(3) Suc by simp
      show "\<forall>j<k. \<not> (suma ((fila_sup # resto) ! j) \<le> suma_escalar \<and>
            suma_escalar \<le> suma ((fila_sup # resto) ! Suc j))"
        using 1(4) Suc by force
    qed
    moreover have "(suma fila_inf \<le> suma_escalar \<and> suma_escalar \<le> suma fila_sup) = False"
      using no by blast
    ultimately show ?thesis using Suc by auto
  qed
next
  case (2 suma_escalar)
  then show ?case by simp
next
  case (3 fila suma_escalar)
  then show ?case by simp
qed

lemma convertir_cit_exacta:
  assumes "i < length ds" and "suma (ds ! i) = s" and "\<forall>j<i. suma (ds ! j) \<noteq> s"
  shows "convertir_cit ds s = Inr (resultado_de_fila (ds ! i))"
proof -
  have "find (\<lambda>fila. suma fila = s) ds = Some (ds ! i)"
    using assms by (intro find_primero) simp_all
  moreover have "ds \<noteq> []" using assms(1) by auto
  ultimately show ?thesis by (simp add: convertir_cit_def)
qed

lemma convertir_cit_abajo:
  assumes "ds \<noteq> []" and "\<forall>f \<in> set ds. s < suma f"
  shows "convertir_cit ds s = Inr (resultado_de_fila (ds ! 0))"
proof -
  have f: "find (\<lambda>fila. suma fila = s) ds = None"
    using assms(2) by (intro find_ninguno) auto
  have m: "py_min (map suma ds) = Inr (Min (set (map suma ds)))"
    using assms(1) by (intro py_min_Min) simp
  have lt: "s < Min (set (map suma ds))"
    using assms by simp
  show ?thesis
    using py_index_0[OF assms(1)] lt assms(1)
    by (simp add: convertir_cit_def f m)
qed

lemma convertir_cit_arriba:
  assumes "ds \<noteq> []" and "\<forall>f \<in> set ds. suma f < s"
  shows "convertir_cit ds s = Inr (resultado_de_fila (ds ! (length ds - 1)))"
proof -
  have f: "find (\<lambda>fila. suma fila = s) ds = None"
    using assms(2) by (intro find_ninguno) auto
  have m: "py_min (map suma ds) = Inr (Min (set (map suma ds)))"
    using assms(1) by (intro py_min_Min) simp
  have x: "py_max (map suma ds) = Inr (Max (set (map suma ds)))"
    using assms(1) by (intro py_max_Max) simp
  have "suma (hd ds) \<in> set (map suma ds)" using assms(1) by simp
  then have "Min (set (map suma ds)) \<le> suma (hd ds)"
    by (simp del: set_map)
  moreover have "suma (hd ds) < s" using assms by simp
  ultimately have "Min (set (map suma ds)) < s" by linarith
  then have nlt: "\<not> s < Min (set (map suma ds))" by simp
  have gt: "Max (set (map suma ds)) < s"
    using assms by simp
  have c: "convertir_cit ds s =
      (case find (\<lambda>fila. suma fila = s) ds of
        Some fila \<Rightarrow> Inr (resultado_de_fila fila)
      | None \<Rightarrow>
          bind (py_min (map suma ds)) (\<lambda>minimo.
          if s < minimo then
            bind (py_index ds 0) (\<lambda>fila. Inr (resultado_de_fila fila))
          else
            bind (py_max (map suma ds)) (\<lambda>maximo.
            if s > maximo then
              bind (py_index ds (- 1)) (\<lambda>fila. Inr (resultado_de_fila fila))
            else
              bind (interpolar_cit ds s) (\<lambda>r.
              case r of
                Some resultado \<Rightarrow> Inr resultado
              | None \<Rightarrow>
                  bind (py_index ds (- 1)) (\<lambda>fila. Inr (resultado_de_fila fila))))))"
    using assms(1) by (simp add: convertir_cit_def)
  show ?thesis
    using py_index_m1[OF assms(1)] nlt gt
    by (simp add: c f m x)
qed

lemma convertir_cit_interior:
  assumes "\<forall>f \<in> set ds. suma f \<noteq> s"
    and "Suc i < length ds"
    and "suma (ds ! i) \<le> s \<and> s \<le> suma (ds ! Suc i)"
    and "\<forall>j<i. \<not> (suma (ds ! j) \<le> s \<and> s \<le> suma (ds ! Suc j))"
  shows "convertir_cit ds s =
           bind (interpolacion_lineal (suma (ds ! i)) (cit (ds ! i))
                   (suma (ds ! Suc i)) (cit (ds ! Suc i)) s)
             (\<lambda>c. Inr \<lparr>percentil = percentil (ds ! i), conf_90 = conf_90 (ds ! i),
                        conf_95 = conf_95 (ds ! i), compuesto = c\<rparr>)"
proof -
  have ne: "ds \<noteq> []" using assms(2) by auto
  have f: "find (\<lambda>fila. suma fila = s) ds = None"
    using assms(1) by (intro find_ninguno) auto
  have m: "py_min (map suma ds) = Inr (Min (set (map suma ds)))"
    using ne by (intro py_min_Min) simp
  have x: "py_max (map suma ds) = Inr (Max (set (map suma ds)))"
    using ne by (intro py_max_Max) simp
  have "suma (ds ! i) \<in> set (map suma ds)" "suma (ds ! Suc i) \<in> set (map suma ds)"
    using assms(2) by simp_all
  then have "Min (set (map suma ds)) \<le> suma (ds ! i)"
    and "suma (ds ! Suc i) \<le> Max (set (map suma ds))"
    by (simp_all del: set_map)
  then have nlt: "\<not> s < Min (set (map suma ds))" and ngt: "\<not> Max (set (map suma ds)) < s"
    using assms(3) by linarith+
  have c: "convertir_cit ds s =
      (case find (\<lambda>fila. suma fila = s) ds of
        Some fila \<Rightarrow> Inr (resultado_de_fila fila)
      | None \<Rightarrow>
          bind (py_min (map suma ds)) (\<lambda>minimo.
          if s < minimo then
            bind (py_index ds 0) (\<lambda>fila. Inr (resultado_de_fila fila))
          else
            bind (py_max (map suma ds)) (\<lambda>maximo.
            if s > maximo then
              bind (py_index ds (- 1)) (\<lambda>fila. Inr (resultado_de_fila fila))
            else
              bind (interpolar_cit ds s) (\<lambda>r.
              case r of
                Some resultado \<Rightarrow> Inr resultado
              | None \<Rightarrow>
                  bind (py_index ds (- 1)) (\<lambda>fila. Inr (resultado_de_fila fila))))))"
    using ne by (simp add: convertir_cit_def)
  show ?thesis
    using nlt ngt
    by (simp add: c f m x interpolar_cit_primero[OF assms(2,3,4)] bind_assoc)
qed

lemma length_filter_todos: "length (filter P xs) = length xs \<longleftrightarrow> (\<forall>x \<in> set xs. P x)"
proof (induction xs)
  case Nil
  then show ?case by simp
next
  case (Cons x xs)
  have "length (filter P xs) \<le> length xs" by simp
  then have "length (filter P xs) \<noteq> Suc (length xs)" by linarith
  then show ?case using Cons by auto
qed

lemma disponibles_siete:
  "length (List.map_filter p subpruebas_principales) = 7 \<longleftrightarrow>
     (\<forall>sub \<in> set subpruebas_principales. p sub \<noteq> None)"
proof -
  have "length subpruebas_principales = 7" by (simp add: subpruebas_principales_def)
  then show ?thesis
    using length_filter_todos[of "\<lambda>x. p x \<noteq> None" subpruebas_principales]
    by (simp add: List.map_filter_def)
qed

lemma disponibles_todos:
  "(\<forall>sub \<in> set xs. p sub \<noteq> None) \<Longrightarrow> List.map_filter p xs = map (the \<circ> p) xs"
  by (induction xs) (auto simp: List.map_filter_def)

subsection \<open>Age bands\<close>

lemma en_grupo_iff:
  "en_grupo a m ((y0, m0), (y1, m1), g) \<longleftrightarrow>
     y0 * 12 + m0 \<le> a * 12 + m \<and> a * 12 + m \<le> y1 * 12 + m1"
  by (simp add: en_grupo_def Let_def)

lemma casos_meses:
  fixes t :: int
  shows "t < 72 \<or> 203 < t \<or> (72 \<le> t \<and> t \<le> 77) \<or> (78 \<le> t \<and> t \<le> 83) \<or> (84 \<le> t \<and> t \<le> 89)
    \<or> (90 \<le> t \<and> t \<le> 95) \<or> (96 \<le> t \<and> t \<le> 101) \<or> (102 \<le> t \<and> t \<le> 107) \<or> (108 \<le> t \<and> t \<le> 113)
    \<or> (114 \<le> t \<and> t \<le> 119) \<or> (120 \<le> t \<and> t \<le> 125) \<or> (126 \<le> t \<and> t \<le> 131) \<or> (132 \<le> t \<and> t \<le> 137)
    \<or> (138 \<le> t \<and> t \<le> 143) \<or> (144 \<le> t \<and> t \<le> 149) \<or> (150 \<le> t \<and> t \<le> 155) \<or> (156 \<le> t \<and> t \<le> 161)
    \<or> (162 \<le> t \<and> t \<le> 167) \<or> (168 \<le> t \<and> t \<le> 173) \<or> (174 \<le> t \<and> t \<le> 179) \<or> (180 \<le> t \<and> t \<le> 185)
    \<or> (186 \<le> t \<and> t \<le> 191) \<or> (192 \<le> t \<and> t \<le> 197) \<or> (198 \<le> t \<and> t \<le> 203)"
  by presburger

lemma buscar_grupo_Inr_iff:
  "(\<exists>g. buscar_grupo a m = Inr g) \<longleftrightarrow> 72 \<le> a * 12 + m \<and> a * 12 + m \<le> 203"
proof -
  define t where "t = a * 12 + m"
  have e: "\<And>y0 m0 y1 m1 g. en_grupo a m ((y0, m0), (y1, m1), g) \<longleftrightarrow>
      y0 * 12 + m0 \<le> t \<and> t \<le> y1 * 12 + m1"
    by (simp add: en_grupo_iff t_def)
  have "(\<exists>g. buscar_grupo a m = Inr g) \<longleftrightarrow> 72 \<le> t \<and> t \<le> 203"
    using casos_meses[of t] unfolding buscar_grupo_def grupos_def
    by (elim disjE conjE) (simp_all add: e)
  then show ?thesis by (simp add: t_def)
qed

lemma grupos_que_contienen:
  "length (filter (en_grupo a m) grupos) =
     (if 72 \<le> a * 12 + m \<and> a * 12 + m \<le> 203 then 1 else 0)"
proof -
  define t where "t = a * 12 + m"
  have e: "\<And>y0 m0 y1 m1 g. en_grupo a m ((y0, m0), (y1, m1), g) \<longleftrightarrow>
      y0 * 12 + m0 \<le> t \<and> t \<le> y1 * 12 + m1"
    by (simp add: en_grupo_iff t_def)
  have "length (filter (en_grupo a m) grupos) = (if 72 \<le> t \<and> t \<le> 203 then 1 else 0)"
    using casos_meses[of t] unfolding grupos_def
    by (elim disjE conjE) (simp_all add: e)
  then show ?thesis by (simp add: t_def)
qed

lemma buscar_grupo_error: "buscar_grupo a m = Inl e \<Longrightarrow> e = ValueError"
  by (auto simp: buscar_grupo_def split: option.splits)

lemma buscar_grupo_en_grupos:
  "buscar_grupo a m = Inr g \<Longrightarrow> \<exists>lo hi. (lo, hi, g) \<in> set grupos \<and> en_grupo a m (lo, hi, g)"
  by (auto simp: buscar_grupo_def find_Some_iff split: option.splits) (metis nth_mem)

subsection \<open>Claims about the raw-to-scaled converter\<close>

lemma find_filter_hd: "find P xs = (case filter P xs of [] \<Rightarrow> None | x # _ \<Rightarrow> Some x)"
  by (induction xs) auto

text \<open>
  Claim C5. An age written \<open>years:months\<close> resolves to a band exactly when its total of
  months, \<open>years * 12 + months\<close>, lies in 72..203; the band returned is then the only
  one of the 22 bands that contains the age. Outside 72..203 the band lookup and with
  it the score conversion fail with \<open>ValueError\<close>, the Python exception that stands for
  the specification's RangeError.
\<close>

theorem edad_a_grupo_meses:
  assumes "unpack_dos_enteros (py_split CHR '':'' edad_formato) = Inr (anios, meses)"
  shows "((\<exists>g. convertir_edad_a_grupo edad_formato = Inr g) \<longleftrightarrow>
            72 \<le> anios * 12 + meses \<and> anios * 12 + meses \<le> 203)
       \<and> (\<forall>g. convertir_edad_a_grupo edad_formato = Inr g \<longrightarrow>
            (\<exists>lo hi. filter (en_grupo anios meses) grupos = [(lo, hi, g)]))
       \<and> (\<not> (72 \<le> anios * 12 + meses \<and> anios * 12 + meses \<le> 203) \<longrightarrow>
            convertir_edad_a_grupo edad_formato = Inl ValueError
            \<and> convertir_puntaje data edad_formato subprueba puntaje_bruto = Inl ValueError)"
proof -
  have c: "convertir_edad_a_grupo edad_formato =
      (case buscar_grupo anios meses of Inl e \<Rightarrow> Inl ValueError | Inr g \<Rightarrow> Inr g)"
    using assms by (simp add: convertir_edad_a_grupo_def)
  have 1: "(\<exists>g. convertir_edad_a_grupo edad_formato = Inr g) \<longleftrightarrow>
            72 \<le> anios * 12 + meses \<and> anios * 12 + meses \<le> 203"
    using buscar_grupo_Inr_iff[of anios meses] unfolding c
    by (cases "buscar_grupo anios meses") auto
  have 2: "\<exists>lo hi. filter (en_grupo anios meses) grupos = [(lo, hi, g)]"
    if g: "convertir_edad_a_grupo edad_formato = Inr g" for g
  proof -
    have b: "buscar_grupo anios meses = Inr g"
      using g unfolding c by (cases "buscar_grupo anios meses") auto
    have "length (filter (en_grupo anios meses) grupos) = 1"
      using 1 g grupos_que_contienen[of anios meses] by auto
    then obtain x where x: "filter (en_grupo anios meses) grupos = [x]"
      by (cases "filter (en_grupo anios meses) grupos") auto
    then have "find (en_grupo anios meses) grupos = Some x"
      by (simp add: find_filter_hd)
    then have "\<exists>lo hi. x = (lo, hi, g)"
      using b by (auto simp: buscar_grupo_def split: prod.splits)
    with x show ?thesis by auto
  qed
  have 3: "convertir_edad_a_grupo edad_formato = Inl ValueError
            \<and> convertir_puntaje data edad_formato subprueba puntaje_bruto = Inl ValueError"
    if "\<not> (72 \<le> anios * 12 + meses \<and> anios * 12 + meses \<le> 203)"
  proof -
    have "convertir_edad_a_grupo edad_formato = Inl ValueError"
      using that 1 unfolding c by (cases "buscar_grupo anios meses") auto
    then show ?thesis by (simp add: convertir_puntaje_def)
  qed
  from 1 2 3 show ?thesis by blast
qed

theorem edad_a_grupo_meses_witness:
  "convertir_edad_a_grupo ''8:6'' = Inr ''8_6_8_11''
   \<and> filter (en_grupo 8 6) grupos = [((8, 6), (8, 11), ''8_6_8_11'')]
   \<and> convertir_edad_a_grupo ''17:0'' = Inl ValueError
   \<and> convertir_puntaje \<lparr>subpruebas = [''CC''], grupos_etarios = []\<rparr> ''17:0'' ''CC'' 3
       = Inl ValueError"
proof -
  have h: "unpack_dos_enteros (py_split CHR '':'' ''8:6'') = Inr (8, 6)"
    by code_simp
  have h2: "unpack_dos_enteros (py_split CHR '':'' ''17:0'') = Inr (17, 0)"
    by code_simp
  have a: "convertir_edad_a_grupo ''8:6'' = Inr ''8_6_8_11''"
    by code_simp
  have f: "filter (en_grupo 8 6) grupos = [((8, 6), (8, 11), ''8_6_8_11'')]"
    by code_simp
  show ?thesis
    using edad_a_grupo_meses[OF h, of "\<lparr>subpruebas = [''CC''], grupos_etarios = []\<rparr>" "''CC''" 3]
      edad_a_grupo_meses[OF h2, of "\<lparr>subpruebas = [''CC''], grupos_etarios = []\<rparr>" "''CC''" 3] a f
    by simp
qed

text \<open>
  Claim C10. \<open>_esta_en_rango\<close> returns a truth value for every score and every cell, it
  never raises: a missing cell, an empty cell, the marker \<open>-\<close>, a single value that is
  not an integer literal and a range whose parts do not unpack to two integers all
  give \<open>False\<close>. The row scan therefore either returns the row's scaled score or moves
  on to the next row.
\<close>

theorem esta_en_rango_nunca_lanza:
  "(\<exists>b. esta_en_rango puntaje rango = Inr b)
   \<and> esta_en_rango puntaje None = Inr False
   \<and> esta_en_rango puntaje (Some ''-'') = Inr False
   \<and> esta_en_rango puntaje (Some []) = Inr False
   \<and> (CHR ''-'' \<notin> set s \<longrightarrow> py_int s = Inl e \<longrightarrow> esta_en_rango puntaje (Some s) = Inr False)
   \<and> (CHR ''-'' \<in> set s \<longrightarrow> unpack_dos_enteros (py_split CHR ''-'' s) = Inl e \<longrightarrow>
        esta_en_rango puntaje (Some s) = Inr False)
   \<and> buscar_en_tabla subprueba puntaje (fila # resto) =
        (if esta_en_rango puntaje (map_of (celdas fila) subprueba) = Inr True
         then Inr (puntaje_escala fila)
         else buscar_en_tabla subprueba puntaje resto)"
proof -
  obtain b where b: "esta_en_rango puntaje (map_of (celdas fila) subprueba) = Inr b"
    using esta_en_rango_Inr by blast
  have "buscar_en_tabla subprueba puntaje (fila # resto) =
        (if esta_en_rango puntaje (map_of (celdas fila) subprueba) = Inr True
         then Inr (puntaje_escala fila)
         else buscar_en_tabla subprueba puntaje resto)"
    using b by (cases b) simp_all
  then show ?thesis
    using esta_en_rango_Inr[of puntaje rango]
    by (auto simp: esta_en_rango_cases)
qed

theorem esta_en_rango_nunca_lanza_witness:
  "esta_en_rango 5 (Some ''abc'') = Inr False \<and> esta_en_rango 5 (Some ''4-x'') = Inr False
   \<and> esta_en_rango 5 (Some ''1-2-3'') = Inr False"
proof -
  have 1: "CHR ''-'' \<notin> set ''abc''" by simp
  have 2: "py_int ''abc'' = Inl ValueError" by code_simp
  have 3: "CHR ''-'' \<in> set ''4-x''" by simp
  have 4: "unpack_dos_enteros (py_split CHR ''-'' ''4-x'') = Inl ValueError" by code_simp
  have 5: "CHR ''-'' \<in> set ''1-2-3''" by simp
  have 6: "unpack_dos_enteros (py_split CHR ''-'' ''1-2-3'') = Inl ValueError" by code_simp
  show ?thesis
    using esta_en_rango_nunca_lanza[of 5 None "''abc''" ValueError]
      esta_en_rango_nunca_lanza[of 5 None "''4-x''" ValueError]
      esta_en_rango_nunca_lanza[of 5 None "''1-2-3''" ValueError] 1 2 3 4 5 6
    by simp
qed

text \<open>
  Claim C6, as amended. For an age that resolves to a band present in the data and a
  subtest code listed in the data, \<open>convertir_puntaje\<close> returns the scaled score of the
  first row whose cell contains the raw score, and fails with \<open>ValueError\<close> when no row
  does. A cell \<open>low-high\<close> contains the scores from \<open>low\<close> to \<open>high\<close>, a single value
  contains itself, and a missing cell, an empty cell and \<open>-\<close> contain nothing. The
  midpoint of a row's range maps to that row's scaled score provided no earlier row
  contains it.
\<close>

theorem convertir_puntaje_primera_fila:
  assumes edad: "convertir_edad_a_grupo edad_formato = Inr grupo_id"
    and sub: "subprueba \<in> set (subpruebas data)"
    and tab: "map_of (grupos_etarios data) grupo_id = Some tabla"
  shows "convertir_puntaje data edad_formato subprueba puntaje_bruto =
           (case find (\<lambda>fila. esta_en_rango puntaje_bruto (map_of (celdas fila) subprueba) = Inr True)
                   tabla of
              Some fila \<Rightarrow> Inr (puntaje_escala fila)
            | None \<Rightarrow> Inl ValueError)
     \<and> (\<forall>s a b lo hi. py_split CHR ''-'' s = [a, b] \<and> py_int a = Inr lo \<and> py_int b = Inr hi \<longrightarrow>
           esta_en_rango puntaje_bruto (Some s) = Inr (lo \<le> puntaje_bruto \<and> puntaje_bruto \<le> hi))
     \<and> (\<forall>s n. CHR ''-'' \<notin> set s \<and> py_int s = Inr n \<longrightarrow>
           esta_en_rango puntaje_bruto (Some s) = Inr (puntaje_bruto = n))
     \<and> esta_en_rango puntaje_bruto None = Inr False
     \<and> esta_en_rango puntaje_bruto (Some ''-'') = Inr False
     \<and> esta_en_rango puntaje_bruto (Some []) = Inr False
     \<and> (\<forall>i s a b lo hi.
           i < length tabla \<and> map_of (celdas (tabla ! i)) subprueba = Some s
           \<and> py_split CHR ''-'' s = [a, b] \<and> py_int a = Inr lo \<and> py_int b = Inr hi \<and> lo \<le> hi
           \<and> (\<forall>j<i. esta_en_rango ((lo + hi) div 2) (map_of (celdas (tabla ! j)) subprueba)
                 = Inr False) \<longrightarrow>
           convertir_puntaje data edad_formato subprueba ((lo + hi) div 2)
             = Inr (puntaje_escala (tabla ! i)))
     \<and> ((\<forall>fila \<in> set tabla.
            esta_en_rango puntaje_bruto (map_of (celdas fila) subprueba) = Inr False) \<longrightarrow>
          convertir_puntaje data edad_formato subprueba puntaje_bruto = Inl ValueError)"
proof -
  let ?P = "\<lambda>p fila. esta_en_rango p (map_of (celdas fila) subprueba) = Inr True"
  have c: "convertir_puntaje data edad_formato subprueba p =
      (case find (?P p) tabla of Some fila \<Rightarrow> Inr (puntaje_escala fila) | None \<Rightarrow> Inl ValueError)"
    for p
    using edad sub tab by (simp add: convertir_puntaje_def buscar_en_tabla_find)
  have mid: "convertir_puntaje data edad_formato subprueba ((lo + hi) div 2)
             = Inr (puntaje_escala (tabla ! i))"
    if i: "i < length tabla" and s: "map_of (celdas (tabla ! i)) subprueba = Some s"
      and ab: "py_split CHR ''-'' s = [a, b]" "py_int a = Inr lo" "py_int b = Inr hi"
      and le: "lo \<le> hi"
      and before: "\<forall>j<i. esta_en_rango ((lo + hi) div 2) (map_of (celdas (tabla ! j)) subprueba)
                 = Inr False"
    for i s a b lo hi
  proof -
    have "lo \<le> (lo + hi) div 2 \<and> (lo + hi) div 2 \<le> hi"
      using le by linarith
    then have "?P ((lo + hi) div 2) (tabla ! i)"
      using rango_bajo_alto[OF ab, of "(lo + hi) div 2"] s by simp
    moreover have "\<forall>j<i. \<not> ?P ((lo + hi) div 2) (tabla ! j)"
      using before by simp
    ultimately have "find (?P ((lo + hi) div 2)) tabla = Some (tabla ! i)"
      using find_primero[of i tabla "?P ((lo + hi) div 2)"] i by blast
    then show ?thesis by (simp add: c)
  qed
  have none: "convertir_puntaje data edad_formato subprueba puntaje_bruto = Inl ValueError"
    if "\<forall>fila \<in> set tabla.
            esta_en_rango puntaje_bruto (map_of (celdas fila) subprueba) = Inr False"
  proof -
    have "find (?P puntaje_bruto) tabla = None"
      using that by (simp add: find_None_iff)
    then show ?thesis by (simp add: c)
  qed
  have fmt1: "\<forall>s a b lo hi. py_split CHR ''-'' s = [a, b] \<and> py_int a = Inr lo \<and> py_int b = Inr hi \<longrightarrow>
           esta_en_rango puntaje_bruto (Some s) = Inr (lo \<le> puntaje_bruto \<and> puntaje_bruto \<le> hi)"
    using rango_bajo_alto by blast
  have fmt2: "\<forall>s n. CHR ''-'' \<notin> set s \<and> py_int s = Inr n \<longrightarrow>
           esta_en_rango puntaje_bruto (Some s) = Inr (puntaje_bruto = n)"
    using rango_valor_unico by blast
  have fmt3: "esta_en_rango puntaje_bruto None = Inr False
     \<and> esta_en_rango puntaje_bruto (Some ''-'') = Inr False
     \<and> esta_en_rango puntaje_bruto (Some []) = Inr False"
    by (simp add: esta_en_rango_cases)
  show ?thesis
    using c[of puntaje_bruto] mid none fmt1 fmt2 fmt3 by blast
qed

text \<open>
  Claim C6 as stated fails where ranges overlap: 5 is the midpoint of the range \<open>4-6\<close>
  of the row with scaled score 2, and the conversion returns the scaled score 1 of the
  earlier row \<open>0-10\<close>.
\<close>

theorem punto_medio_solapado_counterexample:
  "convertir_puntaje
     \<lparr>subpruebas = [''CC''],
      grupos_etarios = [(''8_6_8_11'',
        [\<lparr>puntaje_escala = 1, celdas = [(''CC'', ''0-10'')]\<rparr>,
         \<lparr>puntaje_escala = 2, celdas = [(''CC'', ''4-6'')]\<rparr>])]\<rparr>
     ''8:6'' ''CC'' ((4 + 6) div 2) = Inr 1"
  by code_simp

theorem convertir_puntaje_primera_fila_witness:
  "convertir_puntaje
     \<lparr>subpruebas = [''CC''],
      grupos_etarios = [(''8_6_8_11'',
        [\<lparr>puntaje_escala = 6, celdas = [(''CC'', ''10-11'')]\<rparr>,
         \<lparr>puntaje_escala = 7, celdas = [(''CC'', ''12-14'')]\<rparr>,
         \<lparr>puntaje_escala = 8, celdas = [(''CC'', ''-'')]\<rparr>])]\<rparr>
     ''8:6'' ''CC'' 13 = Inr 7"
proof -
  let ?t = "[\<lparr>puntaje_escala = 6, celdas = [(''CC'', ''10-11'')]\<rparr>,
         \<lparr>puntaje_escala = 7, celdas = [(''CC'', ''12-14'')]\<rparr>,
         \<lparr>puntaje_escala = 8, celdas = [(''CC'', ''-'')]\<rparr>]"
  let ?d = "\<lparr>subpruebas = [''CC''], grupos_etarios = [(''8_6_8_11'', ?t)]\<rparr>"
  have 1: "convertir_edad_a_grupo ''8:6'' = Inr ''8_6_8_11''" by code_simp
  have 2: "''CC'' \<in> set (subpruebas ?d)" by simp
  have 3: "map_of (grupos_etarios ?d) ''8_6_8_11'' = Some ?t" by simp
  have 4: "(1::nat) < length ?t \<and> map_of (celdas (?t ! 1)) ''CC'' = Some ''12-14''
     \<and> py_split CHR ''-'' ''12-14'' = [''12'', ''14''] \<and> py_int ''12'' = Inr 12
     \<and> py_int ''14'' = Inr 14 \<and> (12::int) \<le> 14"
    by code_simp
  have 0: "esta_en_rango ((12 + 14) div 2) (map_of (celdas (?t ! 0)) ''CC'') = Inr False"
    by code_simp
  have 5: "\<forall>j<(1::nat). esta_en_rango ((12 + 14) div 2) (map_of (celdas (?t ! j)) ''CC'') = Inr False"
    using 0 by (auto simp: less_Suc_eq)
  have "convertir_puntaje ?d ''8:6'' ''CC'' ((12 + 14) div 2) = Inr (puntaje_escala (?t ! 1))"
    using convertir_puntaje_primera_fila[OF 1 2 3, of 13] 4 5 by blast
  then show ?thesis by simp
qed

subsection \<open>Claims about the database and the loaders\<close>

text \<open>
  Claim C9. After \<open>eliminar_paciente\<close> has returned \<open>True\<close>, no evaluation of that
  patient is left, the evaluations of the other patients are the same rows in the same
  order, and so are the other patients.
\<close>

theorem eliminar_paciente_cascada:
  assumes "eliminar_paciente falla_eval falla_pac db paciente_id = (True, db')"
  shows "(\<forall>e \<in> set (evaluaciones db'). ev_paciente_id e \<noteq> paciente_id)
       \<and> evaluaciones db' = filter (\<lambda>e. ev_paciente_id e \<noteq> paciente_id) (evaluaciones db)
       \<and> pacientes db' = filter (\<lambda>x. pac_id x \<noteq> paciente_id) (pacientes db)"
proof -
  have f: "\<not> falla_eval" "\<not> falla_pac"
    using assms by (auto simp: eliminar_paciente_def ejecutar_consulta_def split: if_splits)
  then have d: "db' = sqlite_execute (DELETE_FROM_pacientes paciente_id)
                  (sqlite_execute (DELETE_FROM_evaluaciones paciente_id) db)"
    using assms by (simp add: eliminar_paciente_def ejecutar_consulta_def)
  have "filter (\<lambda>e. ev_paciente_id e \<notin> set (map pac_id (filter (\<lambda>x. pac_id x = paciente_id) (pacientes db))))
          (filter (\<lambda>e. ev_paciente_id e \<noteq> paciente_id) (evaluaciones db))
        = filter (\<lambda>e. ev_paciente_id e \<noteq> paciente_id) (evaluaciones db)"
    by (rule filter_True) auto
  then show ?thesis
    unfolding d by (simp add: Let_def)
qed

theorem eliminar_paciente_cascada_witness:
  "eliminar_paciente False False
     \<lparr>pacientes =
        [\<lparr>pac_id = ''a1'', pac_nombre = ''Ana'', pac_dni = None, pac_fecha_nacimiento = ''2015-03-01'',
          pac_notas = None, pac_fecha_registro = ''2024-01-01''\<rparr>,
         \<lparr>pac_id = ''b2'', pac_nombre = ''Luis'', pac_dni = None, pac_fecha_nacimiento = ''2014-07-09'',
          pac_notas = None, pac_fecha_registro = ''2024-01-02''\<rparr>],
      evaluaciones =
        [\<lparr>ev_id = ''e1'', ev_paciente_id = ''a1'', ev_fecha_evaluacion = ''2024-02-01'',
          ev_datos_evaluacion = ''{}''\<rparr>,
         \<lparr>ev_id = ''e2'', ev_paciente_id = ''b2'', ev_fecha_evaluacion = ''2024-02-02'',
          ev_datos_evaluacion = ''{}''\<rparr>,
         \<lparr>ev_id = ''e3'', ev_paciente_id = ''a1'', ev_fecha_evaluacion = ''2024-02-03'',
          ev_datos_evaluacion = ''{}''\<rparr>]\<rparr>
     ''a1''
   = (True,
     \<lparr>pacientes =
        [\<lparr>pac_id = ''b2'', pac_nombre = ''Luis'', pac_dni = None, pac_fecha_nacimiento = ''2014-07-09'',
          pac_notas = None, pac_fecha_registro = ''2024-01-02''\<rparr>],
      evaluaciones =
        [\<lparr>ev_id = ''e2'', ev_paciente_id = ''b2'', ev_fecha_evaluacion = ''2024-02-02'',
          ev_datos_evaluacion = ''{}''\<rparr>]\<rparr>)"
  (is "eliminar_paciente False False ?db ''a1'' = (True, ?db')")
proof -
  have h: "eliminar_paciente False False ?db ''a1'' = (True, ?db')"
    by code_simp
  from eliminar_paciente_cascada[OF h] h show ?thesis by simp
qed

lemma fold_nada_cargado:
  "\<forall>x \<in> set xs. snd x = None \<Longrightarrow> fold cargar_archivo xs st = st"
  by (induction xs arbitrary: st) (auto simp: cargar_archivo_def split: prod.splits)

lemma cargar_datos_falla: "cargar_datos (Inl e) = Inl Exception"
  by (cases e) (simp_all add: cargar_datos_def)

text \<open>
  Claim C8, as amended. \<open>cargar_tablas_completas\<close> returns the built-in default table
  when the directory is missing, and when the directory was listed and no table file
  could be loaded; when the directory exists and listing it raises, that exception
  leaves the function. The loaders of the composite and of the CIT tables return an
  empty structure, not a default table, on a missing file and on any failure to read
  it. \<open>_cargar_datos\<close> has no fallback: a failure to read the file, and a file without
  the key it expects, raise.
\<close>

theorem carga_de_tablas_con_respaldo:
  "cargar_tablas_completas None = Inr obtener_tablas_por_defecto
   \<and> ((\<forall>(archivo, contenido) \<in> set listado.
          py_endswith archivo ''.json'' \<and> archivo \<noteq> ''INFO.json'' \<longrightarrow> contenido = None) \<longrightarrow>
        cargar_tablas_completas (Some (Inr listado)) = Inr obtener_tablas_por_defecto)
   \<and> cargar_tablas_completas (Some (Inl e)) = Inl e
   \<and> cargar_tablas_compuestos None = JObj [(''tablas_conversion'', JObj [])]
   \<and> cargar_tablas_compuestos (Some (Inl e)) = JObj [(''tablas_conversion'', JObj [])]
   \<and> cargar_tabla_cit None = JObj [(''datos'', JArr [])]
   \<and> cargar_tabla_cit (Some (Inl e)) = JObj [(''datos'', JArr [])]
   \<and> cargar_datos (Inl e) = Inl Exception
   \<and> (subscript contenido_json ''WISC_V_tablas_conversion'' = Inl e' \<longrightarrow>
        cargar_datos (Inr contenido_json) = Inl Exception)"
proof -
  have 2: "cargar_tablas_completas (Some (Inr listado)) = Inr obtener_tablas_por_defecto"
    if h: "\<forall>(archivo, contenido) \<in> set listado.
          py_endswith archivo ''.json'' \<and> archivo \<noteq> ''INFO.json'' \<longrightarrow> contenido = None"
  proof -
    let ?js = "filter (\<lambda>(archivo, _). py_endswith archivo ''.json'' \<and> archivo \<noteq> ''INFO.json'') listado"
    let ?ord = "sort_key (\<lambda>(archivo, _). clave_orden (py_replace ''_'' '':'' archivo)) ?js"
    have "\<forall>x \<in> set ?ord. snd x = None"
      using h by auto
    then have "fold cargar_archivo ?ord ([], 0) = ([], 0)"
      by (rule fold_nada_cargado)
    then show ?thesis
      by (simp add: cargar_tablas_completas_def)
  qed
  have 8: "cargar_datos (Inr contenido_json) = Inl Exception"
    if "subscript contenido_json ''WISC_V_tablas_conversion'' = Inl e'"
    using that by (cases e') (simp_all add: cargar_datos_def)
  show ?thesis
    using 2 8 cargar_datos_falla[of e]
    by (simp add: cargar_tablas_completas_def cargar_tablas_compuestos_def cargar_tabla_cit_def)
qed

theorem carga_de_tablas_con_respaldo_witness:
  "cargar_tablas_completas (Some (Inr [(''8_6-8_11.json'', None), (''INFO.json'', Some JNull)]))
     = Inr obtener_tablas_por_defecto
   \<and> cargar_tablas_completas (Some (Inl OSError)) = Inl OSError
   \<and> cargar_datos (Inr (JObj [])) = Inl Exception"
proof -
  have 1: "\<forall>(archivo, contenido) \<in> set [(''8_6-8_11.json'', None), (''INFO.json'', Some JNull)].
          py_endswith archivo ''.json'' \<and> archivo \<noteq> ''INFO.json'' \<longrightarrow> contenido = None"
    by simp
  have 2: "subscript (JObj []) ''WISC_V_tablas_conversion'' = Inl KeyError"
    by (simp add: subscript_def)
  show ?thesis
    using carga_de_tablas_con_respaldo[of "[(''8_6-8_11.json'', None), (''INFO.json'', Some JNull)]"
        OSError "JObj []" KeyError] 1 2
    by blast
qed

text \<open>
  Claim C8 as stated fails for the loader of the raw-to-scaled converter: with the file
  missing it raises, and the exception is not an \<open>ImportError\<close>, so it also leaves the
  import statement of main.py.
\<close>

theorem cargar_datos_sin_respaldo_counterexample:
  "cargar_datos (Inl FileNotFoundError) = Inl Exception
   \<and> importar_conversor (Inl FileNotFoundError) = Inl Exception"
  by (simp add: cargar_datos_def importar_conversor_def)

subsection \<open>Claims about the composite converter\<close>

text \<open>
  Claim C3, as amended. In a table of at least two rows whose first two rows have
  different sums, a sum smaller than every tabulated sum is converted by the formula of
  the extrapolation below the minimum, from the first row with the slope between the
  first two rows; the percentile and both confidence intervals are those of the first
  row. The formula raises nothing but \<open>OverflowError\<close>, its result lies between 40 and 160,
  and it has a result whenever the sum and the table entries are at most \<open>2 ^ 52\<close> in
  magnitude.
\<close>

theorem extrapolacion_bajo_el_minimo:
  assumes "map_of tablas_conversion escala_abrev = Some te"
    and "2 \<le> length (datos te)"
    and "\<forall>fila \<in> set (datos te). suma_escalar < suma fila"
    and "suma (datos te ! 0) \<noteq> suma (datos te ! 1)"
  shows "convertir_compuesto tablas_conversion escala_abrev suma_escalar =
           bind (extrapolacion_inferior (suma (datos te ! 0)) (valor (datos te ! 0))
                   (suma (datos te ! 1)) (valor (datos te ! 1)) suma_escalar)
             (\<lambda>c. Inr \<lparr>percentil = percentil (datos te ! 0), conf_90 = conf_90 (datos te ! 0),
                        conf_95 = conf_95 (datos te ! 0), compuesto = c,
                        nombre_escala = nombre te\<rparr>)
     \<and> (\<forall>e. extrapolacion_inferior (suma (datos te ! 0)) (valor (datos te ! 0))
                   (suma (datos te ! 1)) (valor (datos te ! 1)) suma_escalar = Inl e \<longrightarrow>
            e = OverflowError)
     \<and> (\<forall>c. extrapolacion_inferior (suma (datos te ! 0)) (valor (datos te ! 0))
                   (suma (datos te ! 1)) (valor (datos te ! 1)) suma_escalar = Inr c \<longrightarrow>
            40 \<le> c \<and> c \<le> 160)
     \<and> (acotado suma_escalar \<and> tabla_acotada (datos te) \<longrightarrow>
          (\<exists>c. extrapolacion_inferior (suma (datos te ! 0)) (valor (datos te ! 0))
                   (suma (datos te ! 1)) (valor (datos te ! 1)) suma_escalar = Inr c))"
proof -
  have t: "tablas_conversion \<noteq> []" using assms(1) by auto
  have 1: "convertir_compuesto tablas_conversion escala_abrev suma_escalar =
      convertir_en_tabla te suma_escalar"
    using assms(1) t by (simp add: convertir_compuesto_def)
  have "0 < length (datos te)" "1 < length (datos te)"
    using assms(2) by linarith+
  then have m: "datos te ! 0 \<in> set (datos te)" "datos te ! 1 \<in> set (datos te)"
    using nth_mem by blast+
  have 4: "\<exists>c. extrapolacion_inferior (suma (datos te ! 0)) (valor (datos te ! 0))
                   (suma (datos te ! 1)) (valor (datos te ! 1)) suma_escalar = Inr c"
    if "acotado suma_escalar \<and> tabla_acotada (datos te)"
    using that m assms(4) extrapolacion_inferior_ok[of "suma (datos te ! 0)" "valor (datos te ! 0)"
        "valor (datos te ! 1)" suma_escalar "suma (datos te ! 1)"]
    by (simp add: tabla_acotada_def)
  show ?thesis
    using 4 extrapolacion_inferior_error[OF assms(4)] extrapolacion_inferior_rango
    unfolding 1 convertir_en_tabla_abajo[OF assms(2,3)]
    by blast
qed

theorem extrapolacion_bajo_el_minimo_witness:
  "convertir_compuesto
     [(''ICV'', \<lparr>nombre = ''Comprension Verbal'', datos =
        [\<lparr>percentil = ''50'', conf_90 = ''94-106'', conf_95 = ''93-107'', suma = 10, valor = 100\<rparr>,
         \<lparr>percentil = ''75'', conf_90 = ''104-116'', conf_95 = ''103-117'', suma = 12, valor = 110\<rparr>]\<rparr>)]
     ''ICV'' 8
   = Inr \<lparr>percentil = ''50'', conf_90 = ''94-106'', conf_95 = ''93-107'', compuesto = 90,
          nombre_escala = ''Comprension Verbal''\<rparr>"
  (is "convertir_compuesto ?T ''ICV'' 8 = ?R")
proof -
  let ?te = "\<lparr>nombre = ''Comprension Verbal'', datos =
        [\<lparr>percentil = ''50'', conf_90 = ''94-106'', conf_95 = ''93-107'', suma = 10, valor = 100\<rparr>,
         \<lparr>percentil = ''75'', conf_90 = ''104-116'', conf_95 = ''103-117'', suma = 12, valor = 110\<rparr>]\<rparr>"
  have 1: "map_of ?T ''ICV'' = Some ?te" by simp
  have 2: "2 \<le> length (datos ?te)" by simp
  have 3: "\<forall>fila \<in> set (datos ?te). 8 < suma fila" by simp
  have 4: "suma (datos ?te ! 0) \<noteq> suma (datos ?te ! 1)" by simp
  have 5: "extrapolacion_inferior 10 100 12 110 8 = Inr 90" by code_simp
  show ?thesis
    using extrapolacion_bajo_el_minimo[OF 1 2 3 4] 5 by simp
qed

text \<open>
  Claim C3 as stated fails for a table of two rows with the same sum: the slope divides
  by zero.
\<close>

theorem sumas_iguales_abajo_counterexample:
  "convertir_compuesto
     [(''ICV'', \<lparr>nombre = ''Comprension Verbal'', datos =
        [\<lparr>percentil = ''50'', conf_90 = ''94-106'', conf_95 = ''93-107'', suma = 10, valor = 100\<rparr>,
         \<lparr>percentil = ''75'', conf_90 = ''104-116'', conf_95 = ''103-117'', suma = 10, valor = 110\<rparr>]\<rparr>)]
     ''ICV'' 9
   = Inl ZeroDivisionError"
  by code_simp

text \<open>
  Claim C1, as amended. In a table of at least two rows whose last two rows have
  different sums, a sum greater than every tabulated sum is converted by the formula of
  the extrapolation above the maximum: from the last row, with 70% of the slope between
  the last two rows, rounded, capped at 160 and floored at the last row's value. The
  confidence intervals are those of the last row. The percentile is the last row's,
  except that a percentile whose text contains \<open>99.9\<close> becomes the marker \<open>>99.9\<close>. The
  formula raises nothing but \<open>OverflowError\<close>, its result is at least the last row's
  value and at most 160 when that value is, and it has a result whenever the sum and the
  table entries are at most \<open>2 ^ 52\<close> in magnitude.
\<close>

theorem extrapolacion_sobre_el_maximo:
  assumes "map_of tablas_conversion escala_abrev = Some te"
    and "2 \<le> length (datos te)"
    and "\<forall>fila \<in> set (datos te). suma fila < suma_escalar"
    and "fila_ant = datos te ! (length (datos te) - 2)"
    and "fila_max = datos te ! (length (datos te) - 1)"
    and "suma fila_ant \<noteq> suma fila_max"
  shows "convertir_compuesto tablas_conversion escala_abrev suma_escalar =
           bind (extrapolacion_superior (suma fila_ant) (valor fila_ant)
                   (suma fila_max) (valor fila_max) suma_escalar)
             (\<lambda>c. Inr \<lparr>percentil =
                          (if py_in_str ''99.9'' (percentil fila_max) then ''>99.9''
                           else percentil fila_max),
                        conf_90 = conf_90 fila_max, conf_95 = conf_95 fila_max,
                        compuesto = c, nombre_escala = nombre te\<rparr>)
     \<and> (\<forall>e. extrapolacion_superior (suma fila_ant) (valor fila_ant)
                   (suma fila_max) (valor fila_max) suma_escalar = Inl e \<longrightarrow>
            e = OverflowError)
     \<and> (\<forall>c. extrapolacion_superior (suma fila_ant) (valor fila_ant)
                   (suma fila_max) (valor fila_max) suma_escalar = Inr c \<longrightarrow>
            valor fila_max \<le> c \<and> c \<le> max (valor fila_max) 160)
     \<and> (acotado suma_escalar \<and> tabla_acotada (datos te) \<longrightarrow>
          (\<exists>c. extrapolacion_superior (suma fila_ant) (valor fila_ant)
                   (suma fila_max) (valor fila_max) suma_escalar = Inr c))"
proof -
  have t: "tablas_conversion \<noteq> []" using assms(1) by auto
  have 1: "convertir_compuesto tablas_conversion escala_abrev suma_escalar =
      convertir_en_tabla te suma_escalar"
    using assms(1) t by (simp add: convertir_compuesto_def)
  have "length (datos te) - 2 < length (datos te)" "length (datos te) - 1 < length (datos te)"
    using assms(2) by linarith+
  then have m: "fila_ant \<in> set (datos te)" "fila_max \<in> set (datos te)"
    unfolding assms(4,5) using nth_mem by blast+
  have 4: "\<exists>c. extrapolacion_superior (suma fila_ant) (valor fila_ant)
                   (suma fila_max) (valor fila_max) suma_escalar = Inr c"
    if "acotado suma_escalar \<and> tabla_acotada (datos te)"
    using that m assms(6) extrapolacion_superior_ok[of "suma fila_max" "valor fila_max"
        "valor fila_ant" suma_escalar "suma fila_ant"]
    by (simp add: tabla_acotada_def)
  show ?thesis
    using 4 extrapolacion_superior_error[OF assms(6)] extrapolacion_superior_rango
    unfolding 1 convertir_en_tabla_arriba[OF assms(2,3)] assms(4,5)[symmetric]
    by blast
qed

theorem extrapolacion_sobre_el_maximo_witness:
  "convertir_compuesto
     [(''ICV'', \<lparr>nombre = ''Comprension Verbal'', datos =
        [\<lparr>percentil = ''99'', conf_90 = ''128-139'', conf_95 = ''127-140'', suma = 50, valor = 135\<rparr>,
         \<lparr>percentil = ''99.8'', conf_90 = ''137-149'', conf_95 = ''136-150'', suma = 51, valor = 145\<rparr>]\<rparr>)]
     ''ICV'' 53
   = Inr \<lparr>percentil = ''99.8'', conf_90 = ''137-149'', conf_95 = ''136-150'', compuesto = 159,
          nombre_escala = ''Comprension Verbal''\<rparr>"
  (is "convertir_compuesto ?T ''ICV'' 53 = ?R")
proof -
  let ?a = "\<lparr>percentil = ''99'', conf_90 = ''128-139'', conf_95 = ''127-140'', suma = 50, valor = 135\<rparr>"
  let ?b = "\<lparr>percentil = ''99.8'', conf_90 = ''137-149'', conf_95 = ''136-150'', suma = 51, valor = 145\<rparr>"
  let ?te = "\<lparr>nombre = ''Comprension Verbal'', datos = [?a, ?b]\<rparr>"
  have 1: "map_of ?T ''ICV'' = Some ?te" by simp
  have 2: "2 \<le> length (datos ?te)" by simp
  have 3: "\<forall>fila \<in> set (datos ?te). suma fila < 53" by simp
  have 4: "?a = datos ?te ! (length (datos ?te) - 2)" by simp
  have 5: "?b = datos ?te ! (length (datos ?te) - 1)" by simp
  have 6: "suma ?a \<noteq> suma ?b" by simp
  have 7: "extrapolacion_superior 50 135 51 145 53 = Inr 159" by code_simp
  show ?thesis
    using extrapolacion_sobre_el_maximo[OF 1 2 3 4 5 6] 7 by simp
qed

text \<open>
  Claim C1 as stated fails where the last row's percentile is \<open>99.9\<close>: the result does
  not carry that percentile, it carries the marker \<open>>99.9\<close>.
\<close>

theorem percentil_99_9_counterexample:
  "convertir_compuesto
     [(''ICV'', \<lparr>nombre = ''Comprension Verbal'', datos =
        [\<lparr>percentil = ''99'', conf_90 = ''128-139'', conf_95 = ''127-140'', suma = 50, valor = 135\<rparr>,
         \<lparr>percentil = ''99.9'', conf_90 = ''137-149'', conf_95 = ''136-150'', suma = 51, valor = 145\<rparr>]\<rparr>)]
     ''ICV'' 52
   = Inr \<lparr>percentil = ''>99.9'', conf_90 = ''137-149'', conf_95 = ''136-150'', compuesto = 152,
          nombre_escala = ''Comprension Verbal''\<rparr>"
  by code_simp

text \<open>
  Claim C2, as amended. In a table whose rows are sorted ascending by sum, a sum equal
  to a row's sum returns the fields of the first such row, and a sum strictly between
  the sums of two adjacent rows returns the linear interpolation of their values,
  rounded, with the percentile and the confidence intervals of the lower row. The
  interpolation raises nothing but \<open>OverflowError\<close>; when the sum and the table entries
  are at most \<open>2 ^ 52\<close> in magnitude it has a result, which lies between the two values.
  Every sum within the range of the table that is no row's sum lies strictly between
  two adjacent rows.
\<close>

theorem conversion_dentro_del_rango:
  assumes "map_of tablas_conversion escala_abrev = Some te"
    and "sorted (map suma (datos te))"
  shows "(\<forall>i. i < length (datos te) \<and> suma (datos te ! i) = suma_escalar
            \<and> (\<forall>j<i. suma (datos te ! j) \<noteq> suma_escalar) \<longrightarrow>
          convertir_compuesto tablas_conversion escala_abrev suma_escalar =
            Inr \<lparr>percentil = percentil (datos te ! i), conf_90 = conf_90 (datos te ! i),
                 conf_95 = conf_95 (datos te ! i), compuesto = valor (datos te ! i),
                 nombre_escala = nombre te\<rparr>)
     \<and> (\<forall>i. Suc i < length (datos te) \<and> suma (datos te ! i) < suma_escalar
            \<and> suma_escalar < suma (datos te ! Suc i) \<longrightarrow>
          convertir_compuesto tablas_conversion escala_abrev suma_escalar =
            bind (interpolacion_lineal (suma (datos te ! i)) (valor (datos te ! i))
                    (suma (datos te ! Suc i)) (valor (datos te ! Suc i)) suma_escalar)
              (\<lambda>c. Inr \<lparr>percentil = percentil (datos te ! i), conf_90 = conf_90 (datos te ! i),
                         conf_95 = conf_95 (datos te ! i), compuesto = c,
                         nombre_escala = nombre te\<rparr>)
          \<and> (\<forall>e. interpolacion_lineal (suma (datos te ! i)) (valor (datos te ! i))
                    (suma (datos te ! Suc i)) (valor (datos te ! Suc i)) suma_escalar = Inl e \<longrightarrow>
                 e = OverflowError)
          \<and> (acotado suma_escalar \<and> tabla_acotada (datos te) \<longrightarrow>
               (\<exists>c. interpolacion_lineal (suma (datos te ! i)) (valor (datos te ! i))
                    (suma (datos te ! Suc i)) (valor (datos te ! Suc i)) suma_escalar = Inr c
                  \<and> min (valor (datos te ! i)) (valor (datos te ! Suc i)) \<le> c
                  \<and> c \<le> max (valor (datos te ! i)) (valor (datos te ! Suc i)))))
     \<and> ((\<forall>fila \<in> set (datos te). suma fila \<noteq> suma_escalar)
          \<and> (\<exists>a \<in> set (datos te). suma a \<le> suma_escalar)
          \<and> (\<exists>b \<in> set (datos te). suma_escalar \<le> suma b) \<longrightarrow>
          (\<exists>i. Suc i < length (datos te) \<and> suma (datos te ! i) < suma_escalar
             \<and> suma_escalar < suma (datos te ! Suc i)))"
proof -
  let ?ds = "datos te"
  let ?s = suma_escalar
  have t: "tablas_conversion \<noteq> []" using assms(1) by auto
  have 1: "convertir_compuesto tablas_conversion escala_abrev ?s = convertir_en_tabla te ?s"
    using assms(1) t by (simp add: convertir_compuesto_def)
  have A: "convertir_compuesto tablas_conversion escala_abrev ?s =
            Inr \<lparr>percentil = percentil (?ds ! i), conf_90 = conf_90 (?ds ! i),
                 conf_95 = conf_95 (?ds ! i), compuesto = valor (?ds ! i),
                 nombre_escala = nombre te\<rparr>"
    if "i < length ?ds \<and> suma (?ds ! i) = ?s \<and> (\<forall>j<i. suma (?ds ! j) \<noteq> ?s)" for i
    unfolding 1 using that by (intro convertir_en_tabla_exacta) simp_all
  have B: "convertir_compuesto tablas_conversion escala_abrev ?s =
            bind (interpolacion_lineal (suma (?ds ! i)) (valor (?ds ! i))
                    (suma (?ds ! Suc i)) (valor (?ds ! Suc i)) ?s)
              (\<lambda>c. Inr \<lparr>percentil = percentil (?ds ! i), conf_90 = conf_90 (?ds ! i),
                         conf_95 = conf_95 (?ds ! i), compuesto = c,
                         nombre_escala = nombre te\<rparr>)
          \<and> (\<forall>e. interpolacion_lineal (suma (?ds ! i)) (valor (?ds ! i))
                    (suma (?ds ! Suc i)) (valor (?ds ! Suc i)) ?s = Inl e \<longrightarrow>
                 e = OverflowError)
          \<and> (acotado ?s \<and> tabla_acotada ?ds \<longrightarrow>
               (\<exists>c. interpolacion_lineal (suma (?ds ! i)) (valor (?ds ! i))
                    (suma (?ds ! Suc i)) (valor (?ds ! Suc i)) ?s = Inr c
                  \<and> min (valor (?ds ! i)) (valor (?ds ! Suc i)) \<le> c
                  \<and> c \<le> max (valor (?ds ! i)) (valor (?ds ! Suc i))))"
    if h: "Suc i < length ?ds \<and> suma (?ds ! i) < ?s \<and> ?s < suma (?ds ! Suc i)" for i
  proof -
    from h have i: "Suc i < length ?ds" and lo: "suma (?ds ! i) < ?s"
      and hi: "?s < suma (?ds ! Suc i)" by simp_all
    note o = ordenada_sin_exacta[OF assms(2) i lo hi]
    have br: "suma (?ds ! i) \<le> ?s \<and> ?s \<le> suma (?ds ! Suc i)" using lo hi by simp
    have ne: "suma (?ds ! i) \<noteq> suma (?ds ! Suc i)" using lo hi by simp
    have m: "?ds ! i \<in> set ?ds" "?ds ! Suc i \<in> set ?ds"
      using i by simp_all
    have c: "\<exists>c. interpolacion_lineal (suma (?ds ! i)) (valor (?ds ! i))
                    (suma (?ds ! Suc i)) (valor (?ds ! Suc i)) ?s = Inr c
                  \<and> min (valor (?ds ! i)) (valor (?ds ! Suc i)) \<le> c
                  \<and> c \<le> max (valor (?ds ! i)) (valor (?ds ! Suc i))"
      if "acotado ?s \<and> tabla_acotada ?ds"
      using that m lo hi by (intro interpolacion_lineal_acotada) (simp_all add: tabla_acotada_def)
    show ?thesis
      unfolding 1 convertir_en_tabla_interior[OF o(1) i br o(2)]
      using interpolacion_lineal_error[OF ne] c by blast
  qed
  have C: "\<exists>i. Suc i < length ?ds \<and> suma (?ds ! i) < ?s \<and> ?s < suma (?ds ! Suc i)"
    if h: "(\<forall>fila \<in> set ?ds. suma fila \<noteq> ?s) \<and> (\<exists>a \<in> set ?ds. suma a \<le> ?s)
          \<and> (\<exists>b \<in> set ?ds. ?s \<le> suma b)"
  proof -
    from h obtain a where a: "a \<in> set ?ds" "suma a \<le> ?s" by blast
    then have ne: "?ds \<noteq> []" by auto
    then obtain x r where xr: "?ds = x # r" by (cases ?ds) auto
    have "suma (hd ?ds) \<le> suma a"
      using assms(2) a(1) unfolding xr by auto
    then have "suma (hd ?ds) \<le> ?s" using a(2) by simp
    then show ?thesis
      using h ne by (intro ordenada_existe_par[OF assms(2)]) simp_all
  qed
  show ?thesis using A B C by blast
qed


theorem conversion_dentro_del_rango_witness:
  "convertir_compuesto
     [(''ICV'', \<lparr>nombre = ''Comprension Verbal'', datos =
        [\<lparr>percentil = ''50'', conf_90 = ''94-106'', conf_95 = ''93-107'', suma = 10, valor = 100\<rparr>,
         \<lparr>percentil = ''63'', conf_90 = ''99-111'', conf_95 = ''98-112'', suma = 13, valor = 105\<rparr>,
         \<lparr>percentil = ''66'', conf_90 = ''100-112'', conf_95 = ''99-113'', suma = 14, valor = 106\<rparr>]\<rparr>)]
     ''ICV'' 11
   = Inr \<lparr>percentil = ''50'', conf_90 = ''94-106'', conf_95 = ''93-107'', compuesto = 102,
          nombre_escala = ''Comprension Verbal''\<rparr>"
  (is "convertir_compuesto ?T ''ICV'' 11 = ?R")
proof -
  let ?te = "\<lparr>nombre = ''Comprension Verbal'', datos =
        [\<lparr>percentil = ''50'', conf_90 = ''94-106'', conf_95 = ''93-107'', suma = 10, valor = 100\<rparr>,
         \<lparr>percentil = ''63'', conf_90 = ''99-111'', conf_95 = ''98-112'', suma = 13, valor = 105\<rparr>,
         \<lparr>percentil = ''66'', conf_90 = ''100-112'', conf_95 = ''99-113'', suma = 14, valor = 106\<rparr>]\<rparr>"
  have 1: "map_of ?T ''ICV'' = Some ?te" by simp
  have 2: "sorted (map suma (datos ?te))" by simp
  have 3: "Suc 0 < length (datos ?te) \<and> suma (datos ?te ! 0) < 11
            \<and> 11 < suma (datos ?te ! Suc 0)" by simp
  have 4: "interpolacion_lineal 10 100 13 105 11 = Inr 102" by code_simp
  note th = conversion_dentro_del_rango[OF 1 2, of 11]
  from th[THEN conjunct2, THEN conjunct1, THEN spec, of 0] 3
  have "convertir_compuesto ?T ''ICV'' 11 =
      bind (interpolacion_lineal (suma (datos ?te ! 0)) (valor (datos ?te ! 0))
              (suma (datos ?te ! Suc 0)) (valor (datos ?te ! Suc 0)) 11)
        (\<lambda>c. Inr \<lparr>percentil = percentil (datos ?te ! 0), conf_90 = conf_90 (datos ?te ! 0),
                   conf_95 = conf_95 (datos ?te ! 0), compuesto = c,
                   nombre_escala = nombre ?te\<rparr>)"
    by blast
  then show ?thesis using 4 by simp
qed

text \<open>
  Claim C2 as stated fails for a table that is not sorted: 5 lies within the range of
  the sums 10 and 0 and is neither, no adjacent pair encloses it in the order of the
  table, and the converter returns the last row as it is, not the interpolation.
\<close>

theorem tabla_desordenada_counterexample:
  "convertir_compuesto
     [(''ICV'', \<lparr>nombre = ''Comprension Verbal'', datos =
        [\<lparr>percentil = ''50'', conf_90 = ''94-106'', conf_95 = ''93-107'', suma = 10, valor = 100\<rparr>,
         \<lparr>percentil = ''0.1'', conf_90 = ''47-59'', conf_95 = ''46-60'', suma = 0, valor = 50\<rparr>]\<rparr>)]
     ''ICV'' 5
   = Inr \<lparr>percentil = ''0.1'', conf_90 = ''47-59'', conf_95 = ''46-60'', compuesto = 50,
          nombre_escala = ''Comprension Verbal''\<rparr>"
  by code_simp

subsection \<open>Claims about the CIT converter\<close>

text \<open>
  Claim C7, as amended. In a non-empty CIT table whose rows are sorted ascending by sum,
  a sum below every tabulated sum returns the fields of the first row, a sum above every
  tabulated sum returns the fields of the last row, a sum equal to a row's sum returns
  the fields of the first such row, and a sum strictly between the sums of two adjacent
  rows returns the plain linear interpolation of their values, rounded, with the
  percentile and the confidence intervals of the lower row: no slope is damped. The
  interpolation raises nothing but \<open>OverflowError\<close>, and within \<open>2 ^ 52\<close> it has a
  result between the two values. The form shows a CIT only when each of the seven
  designated subtests has a scaled score, and then it converts the sum of those seven.
\<close>

theorem conversion_cit_sin_amortiguacion:
  assumes "datos_cit \<noteq> []" and "sorted (map suma datos_cit)"
  shows "((\<forall>fila \<in> set datos_cit. suma_escalar < suma fila) \<longrightarrow>
            convertir_cit datos_cit suma_escalar = Inr (resultado_de_fila (datos_cit ! 0)))
     \<and> ((\<forall>fila \<in> set datos_cit. suma fila < suma_escalar) \<longrightarrow>
            convertir_cit datos_cit suma_escalar =
              Inr (resultado_de_fila (datos_cit ! (length datos_cit - 1))))
     \<and> (\<forall>i. i < length datos_cit \<and> suma (datos_cit ! i) = suma_escalar
            \<and> (\<forall>j<i. suma (datos_cit ! j) \<noteq> suma_escalar) \<longrightarrow>
          convertir_cit datos_cit suma_escalar = Inr (resultado_de_fila (datos_cit ! i)))
     \<and> (\<forall>i. Suc i < length datos_cit \<and> suma (datos_cit ! i) < suma_escalar
            \<and> suma_escalar < suma (datos_cit ! Suc i) \<longrightarrow>
          convertir_cit datos_cit suma_escalar =
            bind (interpolacion_lineal (suma (datos_cit ! i)) (cit (datos_cit ! i))
                    (suma (datos_cit ! Suc i)) (cit (datos_cit ! Suc i)) suma_escalar)
              (\<lambda>c. Inr \<lparr>percentil = percentil (datos_cit ! i), conf_90 = conf_90 (datos_cit ! i),
                         conf_95 = conf_95 (datos_cit ! i), compuesto = c\<rparr>)
          \<and> (\<forall>e. interpolacion_lineal (suma (datos_cit ! i)) (cit (datos_cit ! i))
                    (suma (datos_cit ! Suc i)) (cit (datos_cit ! Suc i)) suma_escalar = Inl e \<longrightarrow>
                 e = OverflowError)
          \<and> (acotado suma_escalar \<and> tabla_cit_acotada datos_cit \<longrightarrow>
               (\<exists>c. interpolacion_lineal (suma (datos_cit ! i)) (cit (datos_cit ! i))
                    (suma (datos_cit ! Suc i)) (cit (datos_cit ! Suc i)) suma_escalar = Inr c
                  \<and> min (cit (datos_cit ! i)) (cit (datos_cit ! Suc i)) \<le> c
                  \<and> c \<le> max (cit (datos_cit ! i)) (cit (datos_cit ! Suc i)))))
     \<and> (calcular_escala_total_cit datos_cit nivel puntajes_escalares \<noteq> Limpia \<longrightarrow>
          (\<forall>sub \<in> set subpruebas_principales. puntajes_escalares sub \<noteq> None))
     \<and> ((\<forall>sub \<in> set subpruebas_principales. puntajes_escalares sub \<noteq> None) \<longrightarrow>
          calcular_escala_total_cit datos_cit nivel puntajes_escalares =
            (case convertir_cit datos_cit
                    (sum_list (map (the \<circ> puntajes_escalares) subpruebas_principales)) of
               Inr resultado \<Rightarrow>
                 Calculada (sum_list (map (the \<circ> puntajes_escalares) subpruebas_principales))
                   (compuesto resultado) (percentil resultado @ ''%'')
                   (if nivel = ''90%'' then conf_90 resultado else conf_95 resultado)
             | Inl e \<Rightarrow> Limpia))"
proof -
  let ?ds = datos_cit
  let ?s = suma_escalar
  have A: "convertir_cit ?ds ?s = Inr (resultado_de_fila (?ds ! 0))"
    if "\<forall>fila \<in> set ?ds. ?s < suma fila"
    using assms(1) that by (rule convertir_cit_abajo)
  have B: "convertir_cit ?ds ?s = Inr (resultado_de_fila (?ds ! (length ?ds - 1)))"
    if "\<forall>fila \<in> set ?ds. suma fila < ?s"
    using assms(1) that by (rule convertir_cit_arriba)
  have C: "convertir_cit ?ds ?s = Inr (resultado_de_fila (?ds ! i))"
    if "i < length ?ds \<and> suma (?ds ! i) = ?s \<and> (\<forall>j<i. suma (?ds ! j) \<noteq> ?s)" for i
    using that by (intro convertir_cit_exacta) simp_all
  have D: "convertir_cit ?ds ?s =
            bind (interpolacion_lineal (suma (?ds ! i)) (cit (?ds ! i))
                    (suma (?ds ! Suc i)) (cit (?ds ! Suc i)) ?s)
              (\<lambda>c. Inr \<lparr>percentil = percentil (?ds ! i), conf_90 = conf_90 (?ds ! i),
                         conf_95 = conf_95 (?ds ! i), compuesto = c\<rparr>)
          \<and> (\<forall>e. interpolacion_lineal (suma (?ds ! i)) (cit (?ds ! i))
                    (suma (?ds ! Suc i)) (cit (?ds ! Suc i)) ?s = Inl e \<longrightarrow>
                 e = OverflowError)
          \<and> (acotado ?s \<and> tabla_cit_acotada ?ds \<longrightarrow>
               (\<exists>c. interpolacion_lineal (suma (?ds ! i)) (cit (?ds ! i))
                    (suma (?ds ! Suc i)) (cit (?ds ! Suc i)) ?s = Inr c
                  \<and> min (cit (?ds ! i)) (cit (?ds ! Suc i)) \<le> c
                  \<and> c \<le> max (cit (?ds ! i)) (cit (?ds ! Suc i))))"
    if h: "Suc i < length ?ds \<and> suma (?ds ! i) < ?s \<and> ?s < suma (?ds ! Suc i)" for i
  proof -
    from h have i: "Suc i < length ?ds" and lo: "suma (?ds ! i) < ?s"
      and hi: "?s < suma (?ds ! Suc i)" by simp_all
    note o = ordenada_sin_exacta[OF assms(2) i lo hi]
    have br: "suma (?ds ! i) \<le> ?s \<and> ?s \<le> suma (?ds ! Suc i)" using lo hi by simp
    have ne: "suma (?ds ! i) \<noteq> suma (?ds ! Suc i)" using lo hi by simp
    have m: "?ds ! i \<in> set ?ds" "?ds ! Suc i \<in> set ?ds"
      using i by simp_all
    have c: "\<exists>c. interpolacion_lineal (suma (?ds ! i)) (cit (?ds ! i))
                    (suma (?ds ! Suc i)) (cit (?ds ! Suc i)) ?s = Inr c
                  \<and> min (cit (?ds ! i)) (cit (?ds ! Suc i)) \<le> c
                  \<and> c \<le> max (cit (?ds ! i)) (cit (?ds ! Suc i))"
      if "acotado ?s \<and> tabla_cit_acotada ?ds"
      using that m lo hi by (intro interpolacion_lineal_acotada) (simp_all add: tabla_cit_acotada_def)
    show ?thesis
      unfolding convertir_cit_interior[OF o(1) i br o(2)]
      using interpolacion_lineal_error[OF ne] c by blast
  qed
  have E: "\<forall>sub \<in> set subpruebas_principales. puntajes_escalares sub \<noteq> None"
    if "calcular_escala_total_cit ?ds nivel puntajes_escalares \<noteq> Limpia"
  proof (rule ccontr)
    assume "\<not> ?thesis"
    then have "length (List.map_filter puntajes_escalares subpruebas_principales) \<noteq> 7"
      using disponibles_siete[of puntajes_escalares] by blast
    then have "calcular_escala_total_cit ?ds nivel puntajes_escalares = Limpia"
      by (simp add: calcular_escala_total_cit_def Let_def)
    with that show False by simp
  qed
  have F: "calcular_escala_total_cit ?ds nivel puntajes_escalares =
            (case convertir_cit ?ds
                    (sum_list (map (the \<circ> puntajes_escalares) subpruebas_principales)) of
               Inr resultado \<Rightarrow>
                 Calculada (sum_list (map (the \<circ> puntajes_escalares) subpruebas_principales))
                   (compuesto resultado) (percentil resultado @ ''%'')
                   (if nivel = ''90%'' then conf_90 resultado else conf_95 resultado)
             | Inl e \<Rightarrow> Limpia)"
    if t: "\<forall>sub \<in> set subpruebas_principales. puntajes_escalares sub \<noteq> None"
  proof -
    have 1: "List.map_filter puntajes_escalares subpruebas_principales
        = map (the \<circ> puntajes_escalares) subpruebas_principales"
      using t by (rule disponibles_todos)
    have 2: "length (List.map_filter puntajes_escalares subpruebas_principales) = 7"
      using t disponibles_siete[of puntajes_escalares] by blast
    show ?thesis
      unfolding calcular_escala_total_cit_def Let_def using 2 unfolding 1
      by (simp split: sum.splits)
  qed
  show ?thesis using A B C D E F by blast
qed

theorem conversion_cit_sin_amortiguacion_witness:
  "convertir_cit
     [\<lparr>percentil = ''25'', conf_90 = ''85-96'', conf_95 = ''84-97'', suma = 60, cit = 90\<rparr>,
      \<lparr>percentil = ''50'', conf_90 = ''95-105'', conf_95 = ''94-106'', suma = 70, cit = 100\<rparr>]
     65
   = Inr \<lparr>percentil = ''25'', conf_90 = ''85-96'', conf_95 = ''84-97'', compuesto = 95\<rparr>
   \<and> convertir_cit
     [\<lparr>percentil = ''25'', conf_90 = ''85-96'', conf_95 = ''84-97'', suma = 60, cit = 90\<rparr>,
      \<lparr>percentil = ''50'', conf_90 = ''95-105'', conf_95 = ''94-106'', suma = 70, cit = 100\<rparr>]
     90
   = Inr \<lparr>percentil = ''50'', conf_90 = ''95-105'', conf_95 = ''94-106'', compuesto = 100\<rparr>"
proof -
  let ?ds = "[\<lparr>percentil = ''25'', conf_90 = ''85-96'', conf_95 = ''84-97'', suma = 60, cit = 90\<rparr>,
      \<lparr>percentil = ''50'', conf_90 = ''95-105'', conf_95 = ''94-106'', suma = 70, cit = 100\<rparr>]"
  have 1: "?ds \<noteq> []" by simp
  have 2: "sorted (map suma ?ds)" by simp
  have 3: "Suc 0 < length ?ds \<and> suma (?ds ! 0) < 65 \<and> 65 < suma (?ds ! Suc 0)" by simp
  have 4: "interpolacion_lineal 60 90 70 100 65 = Inr 95" by code_simp
  have 5: "\<forall>fila \<in> set ?ds. suma fila < 90" by simp
  note th = conversion_cit_sin_amortiguacion[OF 1 2, of 65 "''90%''" "\<lambda>x. None"]
  from th[THEN conjunct2, THEN conjunct2, THEN conjunct2, THEN conjunct1, THEN spec, of 0] 3
  have "convertir_cit ?ds 65 =
      bind (interpolacion_lineal (suma (?ds ! 0)) (cit (?ds ! 0))
              (suma (?ds ! Suc 0)) (cit (?ds ! Suc 0)) 65)
        (\<lambda>c. Inr \<lparr>percentil = percentil (?ds ! 0), conf_90 = conf_90 (?ds ! 0),
                   conf_95 = conf_95 (?ds ! 0), compuesto = c\<rparr>)"
    by blast
  then have a: "convertir_cit ?ds 65
      = Inr \<lparr>percentil = ''25'', conf_90 = ''85-96'', conf_95 = ''84-97'', compuesto = 95\<rparr>"
    using 4 by simp
  note th2 = conversion_cit_sin_amortiguacion[OF 1 2, of 90 "''90%''" "\<lambda>x. None"]
  from th2[THEN conjunct2, THEN conjunct1] 5
  have "convertir_cit ?ds 90 = Inr (resultado_de_fila (?ds ! (length ?ds - 1)))"
    by blast
  then have b: "convertir_cit ?ds 90
      = Inr \<lparr>percentil = ''50'', conf_90 = ''95-105'', conf_95 = ''94-106'', compuesto = 100\<rparr>"
    by (simp add: resultado_de_fila_def)
  from a b show ?thesis by simp
qed

text \<open>
  Claim C7 as stated fails for a table that is not sorted: 65 lies within the range of
  the sums 70 and 60 and is neither, no adjacent pair encloses it in the order of the
  table, and the converter returns the last row as it is, not the interpolation 95.
\<close>

theorem tabla_cit_desordenada_counterexample:
  "convertir_cit
     [\<lparr>percentil = ''50'', conf_90 = ''95-105'', conf_95 = ''94-106'', suma = 70, cit = 100\<rparr>,
      \<lparr>percentil = ''25'', conf_90 = ''85-96'', conf_95 = ''84-97'', suma = 60, cit = 90\<rparr>]
     65
   = Inr \<lparr>percentil = ''25'', conf_90 = ''85-96'', conf_95 = ''84-97'', compuesto = 90\<rparr>"
  by code_simp

end
